theory Spec2Isabelle
  imports Complex_Main
begin

section \<open>Python values\<close>

text \<open>
  A Python \<open>str\<close> is a sequence of Unicode code points, so it is modelled as a list of
  code points.  The lookup tables of the server hold Chinese names, which are written as
  their code points; the abbreviations \<open>zh_...\<close> below name them by their meaning.
  \<open>ustr\<close> turns an ASCII literal into such a list.
\<close>

type_synonym pystr = "nat list"

definition ustr :: "string \<Rightarrow> pystr" where
  "ustr s = map of_char s"

text \<open>
  \<open>str.lower()\<close>.  The ASCII capitals are folded.  Outside ASCII exactly two code points
  have a lower-case form that contains an ASCII character: U+0130 (whose lower case is
  \<open>i\<close> followed by U+0307) and U+212A KELVIN SIGN (whose lower case is \<open>k\<close>); both are
  folded as Python does.  Every other code point is left as it is: Python maps some of them
  to other non-ASCII code points, which changes no comparison with the ASCII keys and the
  ASCII needle that the server compares lower-cased text with.
\<close>

definition lower_cp :: "nat \<Rightarrow> pystr" where
  "lower_cp c =
     (if 65 \<le> c \<and> c \<le> 90 then [c + 32]
      else if c = 304 then [105, 775]
      else if c = 8490 then [107]
      else [c])"

definition py_lower :: "pystr \<Rightarrow> pystr" where
  "py_lower s = concat (map lower_cp s)"

text \<open>\<open>str.isspace()\<close> of one code point, and \<open>str.strip()\<close> with no argument.\<close>

definition is_space :: "nat \<Rightarrow> bool" where
  "is_space c \<longleftrightarrow>
     (9 \<le> c \<and> c \<le> 13) \<or> (28 \<le> c \<and> c \<le> 32) \<or> c = 133 \<or> c = 160 \<or> c = 5760 \<or>
     (8192 \<le> c \<and> c \<le> 8202) \<or> c = 8232 \<or> c = 8233 \<or> c = 8239 \<or> c = 8287 \<or> c = 12288"

definition py_strip :: "pystr \<Rightarrow> pystr" where
  "py_strip s = rev (dropWhile is_space (rev (dropWhile is_space s)))"

text \<open>
  Exceptions: the three that the server's own statements can raise, and \<open>DriverError\<close>
  for whatever a call into the browser engine raises, with its text.  \<open>message\<close> is
  \<open>str(e)\<close>.
\<close>

datatype error = KeyError pystr | IndexError | AttributeError | DriverError pystr

fun message :: "error \<Rightarrow> pystr" where
  "message (KeyError k) = [39] @ k @ [39]"
| "message IndexError = ustr ''list index out of range''"
| "message AttributeError =
     [39] @ ustr ''NoneType'' @ [39] @ ustr '' object has no attribute '' @ [39]
       @ ustr ''new_page'' @ [39]"
| "message (DriverError m) = m"

text \<open>
  A \<open>dict\<close> with string keys keeps insertion order: an association list.  \<open>k in d\<close> is
  \<open>dict_contains\<close>, \<open>d[k]\<close> is \<open>dict_index\<close> (KeyError on a missing key), \<open>d.get(k)\<close> is
  \<open>map_of\<close>.
\<close>

definition dict_contains :: "('k \<times> 'v) list \<Rightarrow> 'k \<Rightarrow> bool" where
  "dict_contains d k \<longleftrightarrow> k \<in> set (map fst d)"

definition dict_index :: "(pystr \<times> 'v) list \<Rightarrow> pystr \<Rightarrow> error + 'v" where
  "dict_index d k = (case map_of d k of None \<Rightarrow> Inl (KeyError k) | Some v \<Rightarrow> Inr v)"

section \<open>Search type mappings\<close>

abbreviation zh_topic :: pystr where "zh_topic \<equiv> [20027, 39064]"
abbreviation zh_keyword :: pystr where "zh_keyword \<equiv> [20851, 38190, 35789]"
abbreviation zh_title :: pystr where "zh_title \<equiv> [31687, 21517]"
abbreviation zh_fulltext :: pystr where "zh_fulltext \<equiv> [20840, 25991]"
abbreviation zh_author :: pystr where "zh_author \<equiv> [20316, 32773]"
abbreviation zh_first_author :: pystr where "zh_first_author \<equiv> [31532, 19968, 20316, 32773]"
abbreviation zh_corresponding :: pystr where "zh_corresponding \<equiv> [36890, 35759, 20316, 32773]"
abbreviation zh_affiliation :: pystr where "zh_affiliation \<equiv> [20316, 32773, 21333, 20301]"
abbreviation zh_fund :: pystr where "zh_fund \<equiv> [22522, 37329]"
abbreviation zh_abstract :: pystr where "zh_abstract \<equiv> [25688, 35201]"
abbreviation zh_reference :: pystr where "zh_reference \<equiv> [21442, 32771, 25991, 29486]"
abbreviation zh_source :: pystr where "zh_source \<equiv> [25991, 29486, 26469, 28304]"
abbreviation zh_relevance :: pystr where "zh_relevance \<equiv> [30456, 20851, 24230]"
abbreviation zh_date :: pystr where "zh_date \<equiv> [21457, 34920, 26102, 38388]"
abbreviation zh_cited :: pystr where "zh_cited \<equiv> [34987, 24341]"
abbreviation zh_download :: pystr where "zh_download \<equiv> [19979, 36733]"
abbreviation zh_composite :: pystr where "zh_composite \<equiv> [32508, 21512]"

definition SEARCH_TYPES :: "(pystr \<times> pystr) list" where
  "SEARCH_TYPES =
    [(zh_topic, ustr ''SU''), ([31687, 20851, 25688], ustr ''TKA''), (zh_keyword, ustr ''KY''),
     (zh_title, ustr ''TI''), (zh_fulltext, ustr ''FT''), (zh_author, ustr ''AU''),
     (zh_first_author, ustr ''FI''), (zh_corresponding, ustr ''RP''),
     (zh_affiliation, ustr ''AF''), (zh_fund, ustr ''FU''), (zh_abstract, ustr ''AB''),
     (zh_reference, ustr ''RF''), ([20998, 31867, 21495], ustr ''CLC''),
     (zh_source, ustr ''LY''), (ustr ''DOI'', ustr ''DOI'')]"

definition SEARCH_TYPE_VALUES :: "(pystr \<times> pystr) list" where
  "SEARCH_TYPE_VALUES =
    [(zh_topic, ustr ''SU$%=|''), ([31687, 20851, 25688], ustr ''TKA$%=|''),
     (zh_keyword, ustr ''KY$=|''), (zh_title, ustr ''TI$%=|''), (zh_fulltext, ustr ''FT$%=|''),
     (zh_author, ustr ''AU$=|''), (zh_first_author, ustr ''FI$=|''),
     (zh_corresponding, ustr ''RP$%=|''), (zh_affiliation, ustr ''AF$%''),
     (zh_fund, ustr ''FU$%|''), (zh_abstract, ustr ''AB$%=|''), (zh_reference, ustr ''RF$%=|''),
     ([20998, 31867, 21495], ustr ''CLC$=|??''), (zh_source, ustr ''LY$%=|''),
     (ustr ''DOI'', ustr ''DOI$=|?'')]"

definition SEARCH_TYPE_ALIASES :: "(pystr \<times> pystr) list" where
  "SEARCH_TYPE_ALIASES =
    [(ustr ''subject'', zh_topic), (ustr ''theme'', zh_topic), (ustr ''keyword'', zh_keyword),
     (ustr ''keywords'', zh_keyword), (ustr ''title'', zh_title), (ustr ''author'', zh_author),
     (ustr ''first_author'', zh_first_author), (ustr ''corresponding_author'', zh_corresponding),
     (ustr ''affiliation'', zh_affiliation), (ustr ''institution'', zh_affiliation),
     (ustr ''fund'', zh_fund), (ustr ''abstract'', zh_abstract), (ustr ''fulltext'', zh_fulltext),
     (ustr ''reference'', zh_reference), (ustr ''source'', zh_source),
     (ustr ''doi'', ustr ''DOI'')]"

definition SORT_TYPES :: "(pystr \<times> pystr) list" where
  "SORT_TYPES =
    [(zh_relevance, ustr ''FFD''), (zh_date, ustr ''PT''), (zh_cited, ustr ''CF''),
     (zh_download, ustr ''DFR''), (zh_composite, ustr ''ZH'')]"

definition SORT_TYPE_ALIASES :: "(pystr \<times> pystr) list" where
  "SORT_TYPE_ALIASES =
    [(ustr ''relevance'', zh_relevance), (ustr ''date'', zh_date),
     (ustr ''publish_time'', zh_date), (ustr ''time'', zh_date), (ustr ''cited'', zh_cited),
     (ustr ''citation'', zh_cited), (ustr ''citations'', zh_cited),
     (ustr ''download'', zh_download), (ustr ''downloads'', zh_download),
     (ustr ''composite'', zh_composite), (ustr ''general'', zh_composite)]"

definition PROFESSIONAL_SEARCH_FIELDS :: "(pystr \<times> pystr) list" where
  "PROFESSIONAL_SEARCH_FIELDS =
    [(zh_topic, ustr ''SU''), (zh_keyword, ustr ''KY''), (zh_title, ustr ''TI''),
     (zh_fulltext, ustr ''FT''), (zh_author, ustr ''AU''), (zh_first_author, ustr ''FI''),
     (zh_corresponding, ustr ''RP''), (zh_affiliation, ustr ''AF''), (zh_abstract, ustr ''AB''),
     (ustr ''DOI'', ustr ''DOI'')]"

section \<open>Helpers\<close>

definition resolve_search_type :: "pystr \<Rightarrow> error + pystr" where
  "resolve_search_type search_type =
     (if search_type = [] then Inr zh_topic
      else let s = py_strip (py_lower search_type) in
        if dict_contains SEARCH_TYPE_ALIASES s then dict_index SEARCH_TYPE_ALIASES s
        else if dict_contains SEARCH_TYPES search_type then Inr search_type
        else Inr zh_topic)"

definition resolve_sort_type :: "pystr \<Rightarrow> error + pystr" where
  "resolve_sort_type sort_type =
     (if sort_type = [] then Inr zh_relevance
      else let s = py_strip (py_lower sort_type) in
        if dict_contains SORT_TYPE_ALIASES s then dict_index SORT_TYPE_ALIASES s
        else if dict_contains SORT_TYPES sort_type then Inr sort_type
        else Inr zh_relevance)"

text \<open>
  \<open>sum(c in t for c in title)\<close>: one for every character of the title that occurs in
  \<open>t\<close>.  The loop of \<open>find_closest_title\<close> runs over \<open>enumerate(result_titles)\<close> with the
  two variables \<open>max_similar\<close> and \<open>best_index\<close>.
\<close>

definition common_chars :: "'a list \<Rightarrow> 'a list \<Rightarrow> nat" where
  "common_chars title t = sum_list (map (\<lambda>c. if c \<in> set t then 1 else 0) title)"

fun closest_loop :: "'a list \<Rightarrow> (nat \<times> 'a list) list \<Rightarrow> nat \<Rightarrow> nat \<Rightarrow> nat" where
  "closest_loop title [] max_similar best_index = best_index"
| "closest_loop title ((i, t) # rest) max_similar best_index =
     (if common_chars title t > max_similar
      then closest_loop title rest (common_chars title t) i
      else closest_loop title rest max_similar best_index)"

definition find_closest_title :: "'a list \<Rightarrow> 'a list list \<Rightarrow> nat" where
  "find_closest_title title result_titles = closest_loop title (enumerate 0 result_titles) 0 0"


section \<open>Payloads\<close>

text \<open>
  The values the tools build and return: \<open>None\<close>, booleans, integers, strings, lists and
  dictionaries with literal keys.  \<open>truthy\<close> is Python's truth test, \<open>dict_set\<close> is
  \<open>d[k] = v\<close>, \<open>dict_get\<close> is \<open>d[k]\<close> and \<open>py_index\<close> is \<open>xs[i]\<close> for \<open>i \<ge> 0\<close>.
\<close>

datatype pyval =
    PNone | PBool bool | PInt int | PStr pystr | PList "pyval list" | PDict "(string \<times> pyval) list"

type_synonym pydict = "(string \<times> pyval) list"

fun truthy :: "pyval \<Rightarrow> bool" where
  "truthy PNone = False"
| "truthy (PBool b) = b"
| "truthy (PInt i) = (i \<noteq> 0)"
| "truthy (PStr s) = (s \<noteq> [])"
| "truthy (PList xs) = (xs \<noteq> [])"
| "truthy (PDict d) = (d \<noteq> [])"

fun dict_set :: "string \<Rightarrow> pyval \<Rightarrow> pydict \<Rightarrow> pydict" where
  "dict_set k v [] = [(k, v)]"
| "dict_set k v ((k', v') # d) = (if k' = k then (k, v) # d else (k', v') # dict_set k v d)"

definition dict_get :: "pydict \<Rightarrow> string \<Rightarrow> error + pyval" where
  "dict_get d k = (case map_of d k of None \<Rightarrow> Inl (KeyError (ustr k)) | Some v \<Rightarrow> Inr v)"

definition py_index :: "'a list \<Rightarrow> nat \<Rightarrow> error + 'a" where
  "py_index xs i = (if i < length xs then Inr (xs ! i) else Inl IndexError)"

text \<open>\<open>needle in hay\<close> for two strings.\<close>

fun contains :: "pystr \<Rightarrow> pystr \<Rightarrow> bool" where
  "contains needle [] = (needle = [])"
| "contains needle (c # hay) = (take (length needle) (c # hay) = needle \<or> contains needle hay)"

section \<open>The browser engine as an environment\<close>

text \<open>
  The Playwright objects are outside the repository.  Each call into them is an
  \<open>event\<close> that is appended to the trace of the run, and what the call returns or raises
  is read from the environment, so that every theorem holds for every behaviour of the
  engine.  Browser and Playwright handles are numbers drawn from a counter.  The lock
  operations and the write of \<open>_last_used\<close> are logged as well, which makes the order of
  the pool's steps visible in the trace.
\<close>

type_synonym handle = nat

datatype event =
    LockAcquire | LockRelease | SetLastUsed real
  | PlaywrightStart | Launch handle | IsConnected handle | BrowserClose handle
  | PlaywrightStop handle | NewPage handle pystr | AddInitScript | PageClose
  | Goto pystr | Click pystr | ClickText pystr | Clear pystr | Press pystr nat
  | Fill pystr pystr | WaitForSelector pystr | Query pystr | InnerText | GetAttribute pystr
  | IsEnabled | ClickNext | ExtractDetail | Sleep
  | CtxInfo | CtxError | CtxProgress nat

text \<open>
  An element handle answers \<open>inner_text()\<close> and \<open>get_attribute("href")\<close>; a result row
  answers the six selectors of \<open>_parse_paper_row\<close>; the "next" control answers
  \<open>is_enabled()\<close> and \<open>click()\<close>.  A \<open>view\<close> is what the result list answers while the
  collector is at one page number: the first query for the rows, the bounded wait, the
  query after the wait, and the query for the "next" control.
\<close>

record element =
  inner_text :: "error + pystr"
  href :: "error + pystr option"

record row =
  title_link :: "error + element option"
  author_links :: "error + element list"
  source_link :: "error + element option"
  date_cell :: "error + element option"
  quote_link :: "error + element option"
  download_link :: "error + element option"

record button =
  enabled_r :: "error + bool"
  click_r :: "error + unit"

record view =
  rows_now :: "error + row list"
  wait_rows :: "error + unit"
  rows_after :: "error + row list"
  next_btn :: "error + button option"

text \<open>
  A page (the lease).  \<open>session\<close> is the browser it was opened in.  \<open>action_r\<close> answers
  the navigation and input calls, and may depend on everything that happened before.
  \<open>detail_r\<close> is the outcome of the selectors and of the text splitting that
  \<open>_get_paper_detail\<close> runs after its navigation: no claim is about the extracted fields,
  and whatever they raise reaches the same handler as a failed navigation.
\<close>

record page =
  session :: handle
  init_script_r :: "error + unit"
  action_r :: "event list \<Rightarrow> event \<Rightarrow> error + unit"
  views :: "int \<Rightarrow> view"
  links_r :: "error + element list"
  detail_r :: "error + pydict"
  close_r :: "error + unit"

record env =
  now :: real
  choice :: nat
  start_r :: "error + unit"
  launch_r :: "handle \<Rightarrow> error + unit"
  connected_r :: "handle \<Rightarrow> error + bool"
  bclose_r :: "handle \<Rightarrow> error + unit"
  stop_r :: "handle \<Rightarrow> error + unit"
  new_page_r :: "handle \<Rightarrow> error + page"
  ctx_r :: "event list \<Rightarrow> event \<Rightarrow> error + unit"

text \<open>
  The state: the attributes of the one \<open>BrowserPool\<close> object, the handle counter and the
  trace.  \<open>new_pool\<close> is \<open>BrowserPool.__init__\<close>.
\<close>

record world =
  playwright :: "handle option"
  browser :: "handle option"
  last_used :: real
  fresh :: handle
  trace :: "event list"

definition new_pool :: world where
  "new_pool = \<lparr>playwright = None, browser = None, last_used = 0, fresh = 0, trace = []\<rparr>"

section \<open>Programs\<close>

text \<open>
  A program runs on the mutable local variables of its function (\<open>'l\<close>) and the world, and
  returns a value or raises.  A raise keeps the state reached so far, as in Python, where the
  list a \<open>try\<close> block appended to keeps its items when the block raises.  \<open>try_except\<close> is
  \<open>try: ... except Exception: ...\<close>, \<open>try_finally\<close> is \<open>try: ... finally: ...\<close>, and
  \<open>run_local\<close> calls a function that has local variables of its own and returns its value
  together with their final contents.  Cancellation of a task is not an \<open>Exception\<close> and is
  not modelled: one operation runs alone, from its call to its return.
\<close>

type_synonym ('l, 'a) prog = "'l \<times> world \<Rightarrow> (error + 'a) \<times> 'l \<times> world"

definition ret :: "'a \<Rightarrow> ('l, 'a) prog" where
  "ret x = (\<lambda>s. (Inr x, s))"

definition raise :: "error \<Rightarrow> ('l, 'a) prog" where
  "raise e = (\<lambda>s. (Inl e, s))"

definition of_result :: "error + 'a \<Rightarrow> ('l, 'a) prog" where
  "of_result r = (\<lambda>s. (r, s))"

definition bind :: "('l, 'a) prog \<Rightarrow> ('a \<Rightarrow> ('l, 'b) prog) \<Rightarrow> ('l, 'b) prog" where
  "bind m f = (\<lambda>s. case m s of (Inl e, s') \<Rightarrow> (Inl e, s') | (Inr x, s') \<Rightarrow> f x s')"

definition try_except :: "('l, 'a) prog \<Rightarrow> (error \<Rightarrow> ('l, 'a) prog) \<Rightarrow> ('l, 'a) prog" where
  "try_except m h = (\<lambda>s. case m s of (Inl e, s') \<Rightarrow> h e s' | (Inr x, s') \<Rightarrow> (Inr x, s'))"

definition try_finally :: "('l, 'a) prog \<Rightarrow> ('l, unit) prog \<Rightarrow> ('l, 'a) prog" where
  "try_finally m fin =
     (\<lambda>s. case m s of (r, s') \<Rightarrow>
        (case fin s' of (Inl e, s'') \<Rightarrow> (Inl e, s'') | (Inr u, s'') \<Rightarrow> (r, s'')))"

definition run_local :: "'k \<Rightarrow> ('k, 'a) prog \<Rightarrow> ('l, 'a \<times> 'k) prog" where
  "run_local k0 m =
     (\<lambda>(l, w). case m (k0, w) of
        (Inl e, (k, w')) \<Rightarrow> (Inl e, (l, w'))
      | (Inr x, (k, w')) \<Rightarrow> (Inr (x, k), (l, w')))"

definition local_get :: "('l, 'l) prog" where
  "local_get = (\<lambda>(l, w). (Inr l, (l, w)))"

definition local_modify :: "('l \<Rightarrow> 'l) \<Rightarrow> ('l, unit) prog" where
  "local_modify f = (\<lambda>(l, w). (Inr (), (f l, w)))"

definition get :: "(world \<Rightarrow> 'a) \<Rightarrow> ('l, 'a) prog" where
  "get f = (\<lambda>(l, w). (Inr (f w), (l, w)))"

definition modify :: "(world \<Rightarrow> world) \<Rightarrow> ('l, unit) prog" where
  "modify f = (\<lambda>(l, w). (Inr (), (l, f w)))"

definition logged :: "event \<Rightarrow> world \<Rightarrow> world" where
  "logged ev w = w\<lparr>trace := trace w @ [ev]\<rparr>"

definition call :: "event \<Rightarrow> error + 'a \<Rightarrow> ('l, 'a) prog" where
  "call ev r = (\<lambda>(l, w). (r, (l, logged ev w)))"

definition act :: "page \<Rightarrow> event \<Rightarrow> ('l, unit) prog" where
  "act page ev = (\<lambda>(l, w). (action_r page (trace w) ev, (l, logged ev w)))"

definition ctx :: "env \<Rightarrow> event \<Rightarrow> ('l, unit) prog" where
  "ctx env ev = (\<lambda>(l, w). (ctx_r env (trace w) ev, (l, logged ev w)))"

definition new_handle :: "('l, handle) prog" where
  "new_handle = (\<lambda>(l, w). (Inr (fresh w), (l, w\<lparr>fresh := Suc (fresh w)\<rparr>)))"

text \<open>\<open>async with self._lock\<close>: the lock is released when the body raises, too.\<close>

definition with_lock :: "('l, 'a) prog \<Rightarrow> ('l, 'a) prog" where
  "with_lock m =
     (\<lambda>(l, w). case m (l, logged LockAcquire w) of (r, (l', w')) \<Rightarrow> (r, (l', logged LockRelease w')))"

section \<open>BrowserPool\<close>

text \<open>
  A source name that starts with an underscore carries the prefix \<open>u_\<close> here.
\<close>

definition IDLE_TIMEOUT :: real where
  "IDLE_TIMEOUT = 600"

definition USER_AGENTS :: "pystr list" where
  "USER_AGENTS =
    [ustr ''Mozilla/5.0 (Windows NT 10.0; Win64; x64) AppleWebKit/537.36 (KHTML, like Gecko) Chrome/138.0.0.0 Safari/537.36'',
     ustr ''Mozilla/5.0 (Macintosh; Intel Mac OS X 10_15_7) AppleWebKit/535.19 (KHTML, like Gecko) Chrome/138.0.0.0 Safari/537.36'',
     ustr ''Mozilla/5.0 (X11; Linux x86_64) AppleWebKit/535.11 (KHTML, like Gecko) Chrome/138.0.0.0 Safari/537.36'']"

definition u_create_browser :: "env \<Rightarrow> ('l, handle) prog" where
  "u_create_browser env =
     bind (get playwright) (\<lambda>pw.
     bind (if pw = None
           then bind (call PlaywrightStart (start_r env)) (\<lambda>_.
                bind new_handle (\<lambda>h. modify (\<lambda>w. w\<lparr>playwright := Some h\<rparr>)))
           else ret ()) (\<lambda>_.
     bind new_handle (\<lambda>b.
     bind (call (Launch b) (launch_r env b)) (\<lambda>_.
     ret b))))"

definition u_is_browser_alive :: "env \<Rightarrow> ('l, bool) prog" where
  "u_is_browser_alive env =
     bind (get browser) (\<lambda>br.
       case br of
         None \<Rightarrow> ret False
       | Some b \<Rightarrow> try_except (call (IsConnected b) (connected_r env b)) (\<lambda>e. ret False))"

definition u_close_internal :: "env \<Rightarrow> ('l, unit) prog" where
  "u_close_internal env =
     bind (get browser) (\<lambda>br.
       case br of
         None \<Rightarrow> ret ()
       | Some b \<Rightarrow>
           bind (try_except (call (BrowserClose b) (bclose_r env b)) (\<lambda>e. ret ())) (\<lambda>_.
           modify (\<lambda>w. w\<lparr>browser := None\<rparr>)))"

text \<open>The body of \<open>async with self._lock\<close> in \<open>get_page\<close>, and \<open>get_page\<close> itself.\<close>

definition get_page_locked :: "env \<Rightarrow> ('l, unit) prog" where
  "get_page_locked env =
     bind (get browser) (\<lambda>br.
     bind (if br \<noteq> None
           then bind (get last_used) (\<lambda>lu.
                  if now env - lu > IDLE_TIMEOUT then u_close_internal env
                  else bind (u_is_browser_alive env) (\<lambda>alive.
                         if \<not> alive then modify (\<lambda>w. w\<lparr>browser := None\<rparr>) else ret ()))
           else ret ()) (\<lambda>_.
     bind (get browser) (\<lambda>br'.
     bind (if br' = None
           then bind (u_create_browser env) (\<lambda>b. modify (\<lambda>w. w\<lparr>browser := Some b\<rparr>))
           else ret ()) (\<lambda>_.
     modify (\<lambda>w. logged (SetLastUsed (now env)) (w\<lparr>last_used := now env\<rparr>))))))"

definition get_page :: "env \<Rightarrow> ('l, page) prog" where
  "get_page env =
     bind (with_lock (get_page_locked env)) (\<lambda>_.
     bind (get browser) (\<lambda>br.
       case br of
         None \<Rightarrow> raise AttributeError
       | Some b \<Rightarrow>
           bind (call (NewPage b (USER_AGENTS ! (choice env mod length USER_AGENTS)))
                   (new_page_r env b)) (\<lambda>p.
           bind (call AddInitScript (init_script_r p)) (\<lambda>_.
           ret (p\<lparr>session := b\<rparr>)))))"

definition close :: "env \<Rightarrow> ('l, unit) prog" where
  "close env =
     bind (with_lock (u_close_internal env)) (\<lambda>_.
     bind (get playwright) (\<lambda>pw.
       case pw of
         None \<Rightarrow> ret ()
       | Some p \<Rightarrow>
           bind (try_except (call (PlaywrightStop p) (stop_r env p)) (\<lambda>e. ret ())) (\<lambda>_.
           modify (\<lambda>w. w\<lparr>playwright := None\<rparr>))))"

definition page_close :: "page \<Rightarrow> ('l, unit) prog" where
  "page_close page = call PageClose (close_r page)"

section \<open>Humanised input\<close>

text \<open>\<open>asyncio.sleep\<close> and \<open>random.uniform\<close> raise nothing; the length of a pause is not recorded.\<close>

definition random_delay :: "('l, unit) prog" where
  "random_delay = call Sleep (Inr ())"

fun press_all :: "page \<Rightarrow> pystr \<Rightarrow> pystr \<Rightarrow> ('l, unit) prog" where
  "press_all page selector [] = ret ()"
| "press_all page selector (c # cs) =
     bind (act page (Press selector c)) (\<lambda>_. press_all page selector cs)"

definition type_slowly :: "page \<Rightarrow> pystr \<Rightarrow> pystr \<Rightarrow> ('l, unit) prog" where
  "type_slowly page selector text =
     bind (act page (Clear selector)) (\<lambda>_. press_all page selector text)"


section \<open>Search implementations\<close>

text \<open>
  \<open>_parse_paper_row\<close>: six \<open>try\<close> blocks, one per field, each writing into the dictionary
  \<open>paper\<close>, which is the local variable of the function.  \<open>text_or\<close> is the expression
  \<open>(await el.inner_text()).strip() if el else dflt\<close>.
\<close>

definition text_or :: "element option \<Rightarrow> pystr \<Rightarrow> ('l, pyval) prog" where
  "text_or el dflt =
     (case el of
        Some e \<Rightarrow> bind (call InnerText (inner_text e)) (\<lambda>t. ret (PStr (py_strip t)))
      | None \<Rightarrow> ret (PStr dflt))"

definition set_key :: "string \<Rightarrow> pyval \<Rightarrow> (pydict, unit) prog" where
  "set_key k v = local_modify (dict_set k v)"

definition parse_title :: "row \<Rightarrow> (pydict, unit) prog" where
  "parse_title row =
     try_except
       (bind (call (Query (ustr ''a.fz14'')) (title_link row)) (\<lambda>title_el.
        bind (text_or title_el []) (\<lambda>t.
        bind (set_key ''title'' t) (\<lambda>_.
        bind (case title_el of
                Some e \<Rightarrow> bind (call (GetAttribute (ustr ''href'')) (href e)) (\<lambda>u.
                            ret (case u of None \<Rightarrow> PNone | Some s \<Rightarrow> PStr s))
              | None \<Rightarrow> ret (PStr [])) (\<lambda>u.
        set_key ''url'' u)))))
       (\<lambda>e. bind (set_key ''title'' (PStr [])) (\<lambda>_. set_key ''url'' (PStr [])))"

fun author_names :: "element list \<Rightarrow> ('l, pyval list) prog" where
  "author_names [] = ret []"
| "author_names (a # rest) =
     bind (call InnerText (inner_text a)) (\<lambda>t.
       if py_strip t \<noteq> []
       then bind (call InnerText (inner_text a)) (\<lambda>t'.
            bind (author_names rest) (\<lambda>names. ret (PStr (py_strip t') # names)))
       else author_names rest)"

definition parse_authors :: "row \<Rightarrow> (pydict, unit) prog" where
  "parse_authors row =
     try_except
       (bind (call (Query (ustr ''td.author a'')) (author_links row)) (\<lambda>authors.
        bind (author_names authors) (\<lambda>names.
        set_key ''authors'' (PList names))))
       (\<lambda>e. set_key ''authors'' (PList []))"

definition parse_text_field ::
    "string \<Rightarrow> pystr \<Rightarrow> error + element option \<Rightarrow> pystr \<Rightarrow> (pydict, unit) prog" where
  "parse_text_field key selector answer dflt =
     try_except
       (bind (call (Query selector) answer) (\<lambda>el.
        bind (text_or el dflt) (\<lambda>t.
        set_key key t)))
       (\<lambda>e. set_key key (PStr dflt))"

definition u_parse_paper_row :: "row \<Rightarrow> ('l, pydict) prog" where
  "u_parse_paper_row row =
     bind (run_local []
       (bind (parse_title row) (\<lambda>_.
        bind (parse_authors row) (\<lambda>_.
        bind (parse_text_field ''source'' (ustr ''td.source a'') (source_link row) []) (\<lambda>_.
        bind (parse_text_field ''date'' (ustr ''td.date'') (date_cell row) []) (\<lambda>_.
        bind (parse_text_field ''cited_count'' (ustr ''td.quote a'') (quote_link row) (ustr ''0'')) (\<lambda>_.
        parse_text_field ''download_count'' (ustr ''td.download a'') (download_link row) (ustr ''0''))))))))
       (\<lambda>(u, paper). ret paper)"

text \<open>
  \<open>_collect_results\<close>.  The local variable is \<open>all_papers\<close>.  \<open>for_rows\<close> is the loop over the
  rows of one page, \<open>page_try\<close> the first \<open>try\<close> block, \<open>advance\<close> the second one, which
  answers whether the loop goes on (\<open>False\<close> is \<open>break\<close>), and \<open>collect_pages\<close> the loop over
  \<open>range(1, pages + 1)\<close>.
\<close>

definition ROWS :: pystr where
  "ROWS = ustr ''table.result-table-list tbody tr''"

fun for_rows :: "row list \<Rightarrow> int \<Rightarrow> (pyval list, unit) prog" where
  "for_rows [] page_num = ret ()"
| "for_rows (row # rest) page_num =
     bind (u_parse_paper_row row) (\<lambda>paper.
     bind (of_result (dict_get paper ''title'')) (\<lambda>t.
     bind (if truthy t
           then local_modify (\<lambda>all_papers.
                  all_papers @ [PDict (dict_set ''page'' (PInt page_num) paper)])
           else ret ()) (\<lambda>_.
     for_rows rest page_num)))"

definition page_try :: "page \<Rightarrow> int \<Rightarrow> (pyval list, unit) prog" where
  "page_try page page_num =
     bind (call (Query ROWS) (rows_now (views page page_num))) (\<lambda>rows.
     bind (if rows = []
           then bind (call (WaitForSelector ROWS) (wait_rows (views page page_num))) (\<lambda>_.
                call (Query ROWS) (rows_after (views page page_num)))
           else ret rows) (\<lambda>rows'.
     for_rows rows' page_num))"

definition advance :: "page \<Rightarrow> int \<Rightarrow> ('l, bool) prog" where
  "advance page page_num =
     try_except
       (bind (call (Query (ustr ''#PageNext'')) (next_btn (views page page_num))) (\<lambda>btn.
          case btn of
            None \<Rightarrow> ret False
          | Some b \<Rightarrow>
              bind (call IsEnabled (enabled_r b)) (\<lambda>en.
                if en
                then bind (call ClickNext (click_r b)) (\<lambda>_.
                     bind random_delay (\<lambda>_. ret True))
                else ret False)))
       (\<lambda>e. ret False)"

fun collect_pages :: "page \<Rightarrow> int \<Rightarrow> int list \<Rightarrow> (pyval list, unit) prog" where
  "collect_pages page pages [] = ret ()"
| "collect_pages page pages (page_num # rest) =
     bind (try_except (page_try page page_num) (\<lambda>e. ret ())) (\<lambda>_.
     if page_num < pages
     then bind (advance page page_num) (\<lambda>go.
            if go then collect_pages page pages rest else ret ())
     else collect_pages page pages rest)"

definition u_collect_results :: "page \<Rightarrow> int \<Rightarrow> ('l, pyval list) prog" where
  "u_collect_results page pages =
     bind (run_local [] (collect_pages page pages [1..pages])) (\<lambda>(u, all_papers). ret all_papers)"

text \<open>The sorting block, which both search functions contain word for word.\<close>

definition click_sort :: "page \<Rightarrow> pystr \<Rightarrow> ('l, unit) prog" where
  "click_sort page resolved_sort =
     (if resolved_sort \<noteq> zh_relevance
      then (case map_of SORT_TYPES resolved_sort of
              None \<Rightarrow> ret ()
            | Some sort_id \<Rightarrow>
                if sort_id \<noteq> []
                then try_except
                       (bind (act page (Click (ustr ''#'' @ sort_id))) (\<lambda>_.
                        bind random_delay (\<lambda>_.
                        act page (WaitForSelector ROWS))))
                       (\<lambda>e. ret ())
                else ret ())
      else ret ())"

definition u_simple_search :: "page \<Rightarrow> pystr \<Rightarrow> pystr \<Rightarrow> pystr \<Rightarrow> int \<Rightarrow> ('l, pyval) prog" where
  "u_simple_search page query search_type sort_by pages =
     bind (of_result (resolve_search_type search_type)) (\<lambda>resolved_type.
     bind (of_result (resolve_sort_type sort_by)) (\<lambda>resolved_sort.
     bind (act page (Goto (ustr ''https://www.cnki.net/''))) (\<lambda>_.
     bind random_delay (\<lambda>_.
     bind (if resolved_type \<noteq> zh_topic
           then (case map_of SEARCH_TYPE_VALUES resolved_type of
                   None \<Rightarrow> ret ()
                 | Some v \<Rightarrow>
                     if v \<noteq> []
                     then bind (act page (Click (ustr ''#DBFieldBox''))) (\<lambda>_.
                          bind random_delay (\<lambda>_.
                          bind (act page (Click (ustr ''#DBFieldList a[value='' @ [34] @ v @ [34]
                                                   @ ustr '']''))) (\<lambda>_.
                          random_delay)))
                     else ret ())
           else ret ()) (\<lambda>_.
     bind (type_slowly page (ustr ''#txt_SearchText'') query) (\<lambda>_.
     bind (act page (Click (ustr ''.search-btn''))) (\<lambda>_.
     bind random_delay (\<lambda>_.
     bind (click_sort page resolved_sort) (\<lambda>_.
     bind (u_collect_results page pages) (\<lambda>all_papers.
     ret (PDict [(''query'', PStr query), (''search_type'', PStr resolved_type),
                 (''sort'', PStr resolved_sort), (''total_pages'', PInt pages),
                 (''total_papers'', PInt (int (length all_papers))),
                 (''papers'', PList all_papers)])))))))))))"

definition u_professional_search ::
    "page \<Rightarrow> pystr \<Rightarrow> pystr \<Rightarrow> pystr \<Rightarrow> pystr \<Rightarrow> int \<Rightarrow> ('l, pyval) prog" where
  "u_professional_search page query search_type journal sort_by pages =
     bind (of_result (resolve_search_type search_type)) (\<lambda>resolved_type.
     bind (of_result (resolve_sort_type sort_by)) (\<lambda>resolved_sort.
     let field_code = (case map_of PROFESSIONAL_SEARCH_FIELDS resolved_type of
                         None \<Rightarrow> ustr ''SU'' | Some c \<Rightarrow> c);
         expr = ustr ''('' @ field_code @ ustr ''='' @ [39] @ query @ [39] @ ustr '') AND (JN=''
                  @ [39] @ journal @ [39] @ ustr '')''
     in
     bind (act page (Goto (ustr ''https://kns.cnki.net/kns8s/AdvSearch''))) (\<lambda>_.
     bind random_delay (\<lambda>_.
     bind (try_except (act page (Click (ustr ''li.professional-search'')))
             (\<lambda>e. act page (ClickText [19987, 19994, 26816, 32034]))) (\<lambda>_.
     bind random_delay (\<lambda>_.
     bind (act page (Fill (ustr ''textarea.professional-input, textarea#ExpertValue, textarea.search-input'') expr)) (\<lambda>_.
     bind random_delay (\<lambda>_.
     bind (act page (Click (ustr ''div.professional-search input.btn-search, input.btn-search''))) (\<lambda>_.
     bind random_delay (\<lambda>_.
     bind (click_sort page resolved_sort) (\<lambda>_.
     bind (u_collect_results page pages) (\<lambda>all_papers.
     ret (PDict [(''query'', PStr query), (''search_type'', PStr resolved_type),
                 (''journal'', PStr journal), (''sort'', PStr resolved_sort),
                 (''expression'', PStr expr), (''total_pages'', PInt pages),
                 (''total_papers'', PInt (int (length all_papers))),
                 (''papers'', PList all_papers)])))))))))))))"

section \<open>Paper detail\<close>

definition u_get_paper_detail :: "page \<Rightarrow> pystr \<Rightarrow> ('l, pyval) prog" where
  "u_get_paper_detail page url =
     bind (act page (Goto url)) (\<lambda>_.
     bind random_delay (\<lambda>_.
     bind (call ExtractDetail (detail_r page)) (\<lambda>paper.
     ret (PDict paper))))"

section \<open>Tools\<close>

text \<open>
  The three tools.  \<open>error_payload\<close> is the dictionary an \<open>except\<close> clause builds, with the
  extra entries of each tool.  The \<open>try\<close> statement of each tool is a definition of its own
  (\<open>search_try\<close>, \<open>detail_try\<close>, \<open>match_try\<close>), and so is the body of its \<open>try\<close> block
  (\<open>search_body\<close>, \<open>u_get_paper_detail\<close>, \<open>match_body\<close>); \<open>get_page\<close> is called before the
  \<open>try\<close> statement.
\<close>

definition error_payload :: "error \<Rightarrow> pydict \<Rightarrow> pyval" where
  "error_payload e extra = PDict ([(''isError'', PBool True), (''error'', PStr (message e))] @ extra)"

definition search_body ::
    "page \<Rightarrow> pystr \<Rightarrow> pystr \<Rightarrow> pystr option \<Rightarrow> int \<Rightarrow> pystr \<Rightarrow> ('l, pyval) prog" where
  "search_body page query search_type journal pages sort_by =
     (case journal of
        None \<Rightarrow> u_simple_search page query search_type sort_by pages
      | Some j \<Rightarrow>
          if j \<noteq> [] then u_professional_search page query search_type j sort_by pages
          else u_simple_search page query search_type sort_by pages)"

definition search_try ::
    "page \<Rightarrow> pystr \<Rightarrow> pystr \<Rightarrow> pystr option \<Rightarrow> int \<Rightarrow> pystr \<Rightarrow> ('l, pyval) prog" where
  "search_try page query search_type journal pages sort_by =
     try_finally
       (try_except (search_body page query search_type journal pages sort_by)
          (\<lambda>e. ret (error_payload e [(''papers'', PList [])])))
       (page_close page)"

definition search_cnki ::
    "env \<Rightarrow> pystr \<Rightarrow> pystr \<Rightarrow> pystr option \<Rightarrow> int \<Rightarrow> pystr \<Rightarrow> ('l, pyval) prog" where
  "search_cnki env query search_type journal pages sort_by =
     bind (ctx env CtxInfo) (\<lambda>_.
     bind (ctx env (CtxProgress 0)) (\<lambda>_.
     bind (get_page env) (\<lambda>page.
     bind (search_try page query search_type journal pages sort_by) (\<lambda>result.
     bind (ctx env (CtxProgress 100)) (\<lambda>_.
     bind (case result of
             PDict d \<Rightarrow>
               (case map_of d ''isError'' of
                  Some v \<Rightarrow> if truthy v then ctx env CtxError else ctx env CtxInfo
                | None \<Rightarrow> ctx env CtxInfo)
           | _ \<Rightarrow> raise AttributeError) (\<lambda>_.
     ret result))))))"

definition CNKI_URL_ERROR :: pystr where
  "CNKI_URL_ERROR = [85, 82, 76, 32, 24517, 39035, 26159, 32, 67, 78, 75, 73, 32, 38142, 25509]"

definition detail_try :: "page \<Rightarrow> pystr \<Rightarrow> ('l, pyval) prog" where
  "detail_try page url =
     try_finally
       (try_except (u_get_paper_detail page url)
          (\<lambda>e. ret (error_payload e [(''url'', PStr url)])))
       (page_close page)"

definition get_paper_detail :: "env \<Rightarrow> pystr \<Rightarrow> ('l, pyval) prog" where
  "get_paper_detail env url =
     (if url = [] \<or> \<not> contains (ustr ''cnki'') (py_lower url)
      then ret (PDict [(''isError'', PBool True), (''error'', PStr CNKI_URL_ERROR)])
      else
        bind (ctx env CtxInfo) (\<lambda>_.
        bind (ctx env (CtxProgress 0)) (\<lambda>_.
        bind (get_page env) (\<lambda>page.
        bind (detail_try page url) (\<lambda>result.
        bind (ctx env (CtxProgress 100)) (\<lambda>_.
        ret result))))))"

text \<open>
  \<open>find_best_match\<close>.  The local variables are the two lists \<open>titles\<close> and \<open>urls\<close>.
  \<open>for_links\<close> is the loop over the links, \<open>match_collect\<close> the inner \<open>try\<close> block and
  \<open>match_result\<close> the \<open>if not titles: ... else: ...\<close> that builds the payload;
  \<open>match_navigate\<close> is the part of the outer \<open>try\<close> block before the two lists are
  created, \<open>match_lookup\<close> the part from there on.
\<close>

definition NOT_FOUND :: pystr where
  "NOT_FOUND = [26410, 25214, 21040, 32467, 26524]"

fun for_links :: "element list \<Rightarrow> (pystr list \<times> pystr list, unit) prog" where
  "for_links [] = ret ()"
| "for_links (link # rest) =
     bind (call InnerText (inner_text link)) (\<lambda>t0.
     bind (call (GetAttribute (ustr ''href'')) (href link)) (\<lambda>u.
     bind (if py_strip t0 \<noteq> []
           then local_modify (\<lambda>(titles, urls).
                  (titles @ [py_strip t0], urls @ [case u of None \<Rightarrow> [] | Some s \<Rightarrow> s]))
           else ret ()) (\<lambda>_.
     for_links rest)))"

definition match_collect :: "page \<Rightarrow> (pystr list \<times> pystr list, unit) prog" where
  "match_collect page =
     try_except
       (bind (act page (WaitForSelector (ustr ''a.fz14''))) (\<lambda>_.
        bind (call (Query (ustr ''#gridTable a.fz14'')) (links_r page)) (\<lambda>links.
        for_links links)))
       (\<lambda>e. ret ())"

definition match_result :: "pystr \<Rightarrow> (pystr list \<times> pystr list, pyval) prog" where
  "match_result query =
     bind local_get (\<lambda>(titles, urls).
       if titles = []
       then ret (PDict [(''query'', PStr query), (''best_match'', PNone),
                        (''message'', PStr NOT_FOUND)])
       else
         bind (of_result (py_index titles (find_closest_title query titles))) (\<lambda>t.
         bind (of_result (py_index urls (find_closest_title query titles))) (\<lambda>u.
         ret (PDict [(''query'', PStr query),
                     (''best_match'', PDict [(''title'', PStr t), (''url'', PStr u)]),
                     (''total_results'', PInt (int (length titles)))]))))"

definition match_navigate :: "page \<Rightarrow> pystr \<Rightarrow> ('l, unit) prog" where
  "match_navigate page query =
     bind (act page (Goto (ustr ''https://www.cnki.net/''))) (\<lambda>_.
     bind random_delay (\<lambda>_.
     bind (type_slowly page (ustr ''#txt_SearchText'') query) (\<lambda>_.
     bind (act page (Click (ustr ''.search-btn''))) (\<lambda>_.
     random_delay))))"

definition match_lookup :: "page \<Rightarrow> pystr \<Rightarrow> (pystr list \<times> pystr list, pyval) prog" where
  "match_lookup page query =
     bind (local_modify (\<lambda>_. ([], []))) (\<lambda>_.
     bind (match_collect page) (\<lambda>_.
     match_result query))"

definition match_body :: "page \<Rightarrow> pystr \<Rightarrow> ('l, pyval) prog" where
  "match_body page query =
     bind (run_local ([], [])
             (bind (match_navigate page query) (\<lambda>_. match_lookup page query)))
       (\<lambda>(result, locals). ret result)"

definition match_try :: "page \<Rightarrow> pystr \<Rightarrow> ('l, pyval) prog" where
  "match_try page query =
     try_finally
       (try_except (match_body page query) (\<lambda>e. ret (error_payload e [])))
       (page_close page)"

definition find_best_match :: "env \<Rightarrow> pystr \<Rightarrow> ('l, pyval) prog" where
  "find_best_match env query =
     bind (ctx env CtxInfo) (\<lambda>_.
     bind (ctx env (CtxProgress 0)) (\<lambda>_.
     bind (get_page env) (\<lambda>page.
     bind (match_try page query) (\<lambda>result.
     bind (ctx env (CtxProgress 100)) (\<lambda>_.
     ret result)))))"


section \<open>A quiet engine\<close>

text \<open>
  An engine in which every call succeeds and every page shows nothing: the concrete
  environment on which the theorems below are instantiated.
\<close>

definition quiet_view :: view where
  "quiet_view = \<lparr>rows_now = Inr [], wait_rows = Inr (), rows_after = Inr [], next_btn = Inr None\<rparr>"

definition quiet_page :: page where
  "quiet_page =
     \<lparr>session = 0, init_script_r = Inr (), action_r = (\<lambda>h ev. Inr ()),
      views = (\<lambda>n. quiet_view), links_r = Inr [], detail_r = Inr [], close_r = Inr ()\<rparr>"

definition quiet_env :: env where
  "quiet_env =
     \<lparr>now = 1000, choice = 0, start_r = Inr (), launch_r = (\<lambda>b. Inr ()),
      connected_r = (\<lambda>b. Inr True), bclose_r = (\<lambda>b. Inr ()), stop_r = (\<lambda>p. Inr ()),
      new_page_r = (\<lambda>b. Inr quiet_page), ctx_r = (\<lambda>h ev. Inr ())\<rparr>"

text \<open>Every handle held by the pool was drawn from the counter.\<close>

definition pool_wf :: "world \<Rightarrow> bool" where
  "pool_wf w \<longleftrightarrow>
     (case browser w of None \<Rightarrow> True | Some b \<Rightarrow> b < fresh w) \<and>
     (case playwright w of None \<Rightarrow> True | Some p \<Rightarrow> p < fresh w)"

text \<open>A pool that holds a browser which was last used at time 100.\<close>

definition aged_pool :: world where
  "aged_pool = \<lparr>playwright = Some 0, browser = Some 1, last_used = 100, fresh = 2, trace = []\<rparr>"


text \<open>An engine in which the browser cannot be launched.\<close>

definition no_launch_env :: env where
  "no_launch_env = quiet_env\<lparr>launch_r := (\<lambda>b. Inl (DriverError (ustr ''launch failed'')))\<rparr>"

section \<open>The portal's domain\<close>

text \<open>
  The claims speak of a URL that belongs to the domain of the portal.  The server has no
  function for this notion; it is written out here, from the words of the claim, to compare
  the server's own test with it: the host of the URL (what follows \<open>://\<close>, up to the next
  \<open>/\<close>, \<open>?\<close>, \<open>#\<close> or \<open>:\<close>) is \<open>cnki.net\<close> or ends with \<open>.cnki.net\<close>.
\<close>

fun after_scheme :: "pystr \<Rightarrow> pystr" where
  "after_scheme [] = []"
| "after_scheme (c # s) =
     (if take 3 (c # s) = ustr ''://'' then drop 3 (c # s) else after_scheme s)"

definition url_host :: "pystr \<Rightarrow> pystr" where
  "url_host url =
     takeWhile (\<lambda>c. c \<notin> set (ustr ''/?#:''))
       (if contains (ustr ''://'') url then after_scheme url else url)"

definition in_portal_domain :: "pystr \<Rightarrow> bool" where
  "in_portal_domain url \<longleftrightarrow>
     (let h = py_lower (url_host url)
      in h = ustr ''cnki.net'' \<or> (9 < length h \<and> drop (length h - 9) h = ustr ''.cnki.net''))"

section \<open>Outcomes\<close>

text \<open>An outcome that is an exception or a dictionary, as every tool body produces.\<close>

definition dict_or_raise :: "error + pyval \<Rightarrow> bool" where
  "dict_or_raise r \<longleftrightarrow>
     (case r of Inl e \<Rightarrow> True | Inr v \<Rightarrow> (case v of PDict d \<Rightarrow> True | _ \<Rightarrow> False))"

text \<open>A page whose result list shows two links, the second without an address.\<close>

definition two_link_page :: page where
  "two_link_page =
     quiet_page\<lparr>links_r := Inr [\<lparr>inner_text = Inr (ustr ''ab''), href = Inr (Some (ustr ''/a''))\<rparr>,
                               \<lparr>inner_text = Inr (ustr '' abc ''), href = Inr None\<rparr>]\<rparr>"


section \<open>What a row and a page yield\<close>

text \<open>
  The record that the extraction layer yields for a row, field by field, written as plain
  functions of what the row answers: a field whose element is absent, or whose reading
  raises, has its default.  The title and the address stand and fall together, since they
  are read in one \<open>try\<close> block.  These functions say what the records of a page are;
  the programs above are proved to compute them.
\<close>

definition text_val :: "element option \<Rightarrow> pystr \<Rightarrow> error + pystr" where
  "text_val el dflt =
     (case el of None \<Rightarrow> Inr dflt
      | Some e \<Rightarrow> (case inner_text e of Inl x \<Rightarrow> Inl x | Inr t \<Rightarrow> Inr (py_strip t)))"

definition row_title_url :: "row \<Rightarrow> pystr \<times> pyval" where
  "row_title_url row =
     (case title_link row of
        Inl x \<Rightarrow> ([], PStr [])
      | Inr None \<Rightarrow> ([], PStr [])
      | Inr (Some e) \<Rightarrow>
          (case inner_text e of
             Inl x \<Rightarrow> ([], PStr [])
           | Inr t \<Rightarrow>
               (case href e of
                  Inl x \<Rightarrow> ([], PStr [])
                | Inr None \<Rightarrow> (py_strip t, PNone)
                | Inr (Some u) \<Rightarrow> (py_strip t, PStr u))))"

definition row_title :: "row \<Rightarrow> pystr" where
  "row_title row = fst (row_title_url row)"

fun names_of :: "element list \<Rightarrow> pyval list option" where
  "names_of [] = Some []"
| "names_of (a # rest) =
     (case inner_text a of
        Inl x \<Rightarrow> None
      | Inr t \<Rightarrow>
          (case names_of rest of
             None \<Rightarrow> None
           | Some names \<Rightarrow> Some (if py_strip t \<noteq> [] then PStr (py_strip t) # names else names)))"

definition row_authors :: "row \<Rightarrow> pyval list" where
  "row_authors row =
     (case author_links row of
        Inl x \<Rightarrow> []
      | Inr els \<Rightarrow> (case names_of els of None \<Rightarrow> [] | Some names \<Rightarrow> names))"

definition field_val :: "error + element option \<Rightarrow> pystr \<Rightarrow> pystr" where
  "field_val answer dflt =
     (case answer of
        Inl x \<Rightarrow> dflt
      | Inr el \<Rightarrow> (case text_val el dflt of Inl x \<Rightarrow> dflt | Inr t \<Rightarrow> t))"

definition row_record :: "row \<Rightarrow> pydict" where
  "row_record row =
     [(''title'', PStr (row_title row)), (''url'', snd (row_title_url row)),
      (''authors'', PList (row_authors row)),
      (''source'', PStr (field_val (source_link row) [])),
      (''date'', PStr (field_val (date_cell row) [])),
      (''cited_count'', PStr (field_val (quote_link row) (ustr ''0''))),
      (''download_count'', PStr (field_val (download_link row) (ustr ''0'')))]"

text \<open>
  The rows that are visible on a page (\<open>None\<close> when reading them raises), the records
  that a page contributes, whether the collector can go on from a page, and the pages it
  visits out of a list of page numbers.
\<close>

definition visible_rows :: "view \<Rightarrow> row list option" where
  "visible_rows v =
     (case rows_now v of
        Inl x \<Rightarrow> None
      | Inr rows \<Rightarrow>
          if rows = []
          then (case wait_rows v of
                  Inl x \<Rightarrow> None
                | Inr u \<Rightarrow> (case rows_after v of Inl x \<Rightarrow> None | Inr rows' \<Rightarrow> Some rows'))
          else Some rows)"

definition tagged :: "int \<Rightarrow> row \<Rightarrow> pyval" where
  "tagged page_num row = PDict (row_record row @ [(''page'', PInt page_num)])"

definition page_records :: "view \<Rightarrow> int \<Rightarrow> pyval list" where
  "page_records v page_num =
     (case visible_rows v of
        None \<Rightarrow> []
      | Some rows \<Rightarrow> map (tagged page_num) (filter (\<lambda>row. row_title row \<noteq> []) rows))"

definition can_advance :: "view \<Rightarrow> bool" where
  "can_advance v =
     (case next_btn v of
        Inl x \<Rightarrow> False
      | Inr None \<Rightarrow> False
      | Inr (Some b) \<Rightarrow>
          (case enabled_r b of
             Inl x \<Rightarrow> False
           | Inr en \<Rightarrow> en \<and> (case click_r b of Inl x \<Rightarrow> False | Inr u \<Rightarrow> True)))"

fun visited :: "page \<Rightarrow> int \<Rightarrow> int list \<Rightarrow> int list" where
  "visited page pages [] = []"
| "visited page pages (n # rest) =
     n # (if n < pages \<and> \<not> can_advance (views page n) then [] else visited page pages rest)"

text \<open>
  A row without a title link but with a source, and a page that shows this one row.
\<close>

definition untitled_row :: row where
  "untitled_row =
     \<lparr>title_link = Inr None, author_links = Inr [],
      source_link = Inr (Some \<lparr>inner_text = Inr (ustr ''Nature''), href = Inr None\<rparr>),
      date_cell = Inr None, quote_link = Inr None, download_link = Inr None\<rparr>"

definition titled_row :: row where
  "titled_row =
     \<lparr>title_link = Inr (Some \<lparr>inner_text = Inr (ustr '' Graphene ''), href = Inr (Some (ustr ''/g''))\<rparr>),
      author_links = Inr [], source_link = Inr None,
      date_cell = Inr None, quote_link = Inr None, download_link = Inr None\<rparr>"

definition one_row_page :: "row \<Rightarrow> page" where
  "one_row_page row = quiet_page\<lparr>views := (\<lambda>n. quiet_view\<lparr>rows_now := Inr [row]\<rparr>)\<rparr>"



section \<open>Running programs\<close>

lemma ret_apply: "ret x s = (Inr x, s)"
  by (simp add: ret_def)

lemma raise_apply: "raise e s = (Inl e, s)"
  by (simp add: raise_def)

lemma of_result_apply: "of_result r s = (r, s)"
  by (simp add: of_result_def)

lemma bind_apply:
  "bind m f s = (case m s of (Inl e, s') \<Rightarrow> (Inl e, s') | (Inr x, s') \<Rightarrow> f x s')"
  by (simp add: bind_def)

lemma try_except_apply:
  "try_except m h s = (case m s of (Inl e, s') \<Rightarrow> h e s' | (Inr x, s') \<Rightarrow> (Inr x, s'))"
  by (simp add: try_except_def)

lemma try_finally_apply:
  "try_finally m fin s =
     (case m s of (r, s') \<Rightarrow>
        (case fin s' of (Inl e, s'') \<Rightarrow> (Inl e, s'') | (Inr u, s'') \<Rightarrow> (r, s'')))"
  by (simp add: try_finally_def)

lemma run_local_apply:
  "run_local k0 m (l, w) =
     (case m (k0, w) of
        (Inl e, (k, w')) \<Rightarrow> (Inl e, (l, w'))
      | (Inr x, (k, w')) \<Rightarrow> (Inr (x, k), (l, w')))"
  by (simp add: run_local_def)

lemma local_get_apply: "local_get (l, w) = (Inr l, (l, w))"
  by (simp add: local_get_def)

lemma local_modify_apply: "local_modify f (l, w) = (Inr (), (f l, w))"
  by (simp add: local_modify_def)

lemma get_apply: "get f (l, w) = (Inr (f w), (l, w))"
  by (simp add: get_def)

lemma modify_apply: "modify f (l, w) = (Inr (), (l, f w))"
  by (simp add: modify_def)

lemma call_apply: "call ev r (l, w) = (r, (l, logged ev w))"
  by (simp add: call_def)

lemma act_apply: "act page ev (l, w) = (action_r page (trace w) ev, (l, logged ev w))"
  by (simp add: act_def)

lemma ctx_apply: "ctx env ev (l, w) = (ctx_r env (trace w) ev, (l, logged ev w))"
  by (simp add: ctx_def)

lemma new_handle_apply: "new_handle (l, w) = (Inr (fresh w), (l, w\<lparr>fresh := Suc (fresh w)\<rparr>))"
  by (simp add: new_handle_def)

lemma with_lock_apply:
  "with_lock m (l, w) =
     (case m (l, logged LockAcquire w) of (r, (l', w')) \<Rightarrow> (r, (l', logged LockRelease w')))"
  by (simp add: with_lock_def)

lemmas prog_simps =
  ret_apply raise_apply of_result_apply bind_apply try_except_apply try_finally_apply
  run_local_apply local_get_apply local_modify_apply get_apply modify_apply call_apply
  act_apply ctx_apply new_handle_apply with_lock_apply

lemma logged_simps [simp]:
  "trace (logged ev w) = trace w @ [ev]"
  "browser (logged ev w) = browser w"
  "playwright (logged ev w) = playwright w"
  "last_used (logged ev w) = last_used w"
  "fresh (logged ev w) = fresh w"
  by (simp_all add: logged_def)

section \<open>The session pool\<close>

lemma close_internal_run:
  "u_close_internal env (l, w) =
     (Inr (), (l, (case browser w of
                     None \<Rightarrow> w
                   | Some b \<Rightarrow> (logged (BrowserClose b) w)\<lparr>browser := None\<rparr>)))"
  by (simp add: u_close_internal_def prog_simps split: option.splits sum.splits)

lemma close_run:
  "close env (l, w) =
     (Inr (), (l,
       (case playwright w of
          None \<Rightarrow> logged LockRelease
                    (case browser w of
                       None \<Rightarrow> logged LockAcquire w
                     | Some b \<Rightarrow> (logged (BrowserClose b) (logged LockAcquire w))\<lparr>browser := None\<rparr>)
        | Some p \<Rightarrow>
            (logged (PlaywrightStop p)
              (logged LockRelease
                (case browser w of
                   None \<Rightarrow> logged LockAcquire w
                 | Some b \<Rightarrow> (logged (BrowserClose b) (logged LockAcquire w))\<lparr>browser := None\<rparr>)))
            \<lparr>playwright := None\<rparr>)))"
  by (simp add: close_def close_internal_run prog_simps split: option.splits sum.splits)

text \<open>
  C9.  \<open>close\<close> never raises, whatever the engine answers.  It closes the browser (if there
  is one) inside the lock and then stops Playwright (if it was started), in that order, and
  leaves the pool with neither.  A second \<open>close\<close> right after it does not raise either,
  calls nothing in the engine and leaves the pool as it is.
\<close>

theorem close_never_raises_idempotent:
  "fst (close env (l, w)) = Inr () \<and>
   browser (snd (snd (close env (l, w)))) = None \<and>
   playwright (snd (snd (close env (l, w)))) = None \<and>
   trace (snd (snd (close env (l, w)))) =
     trace w @ [LockAcquire] @ (case browser w of None \<Rightarrow> [] | Some b \<Rightarrow> [BrowserClose b])
       @ [LockRelease] @ (case playwright w of None \<Rightarrow> [] | Some p \<Rightarrow> [PlaywrightStop p]) \<and>
   fst (close env (snd (close env (l, w)))) = Inr () \<and>
   browser (snd (snd (close env (snd (close env (l, w)))))) = None \<and>
   playwright (snd (snd (close env (snd (close env (l, w)))))) = None \<and>
   last_used (snd (snd (close env (snd (close env (l, w)))))) = last_used w \<and>
   trace (snd (snd (close env (snd (close env (l, w)))))) =
     trace (snd (snd (close env (l, w)))) @ [LockAcquire, LockRelease]"
  by (simp add: close_run split: option.splits)

lemma create_browser_run:
  "u_create_browser env (l, w) =
     (case playwright w of
        None \<Rightarrow>
          (case start_r env of
             Inl e \<Rightarrow> (Inl e, (l, logged PlaywrightStart w))
           | Inr u \<Rightarrow>
               (case launch_r env (Suc (fresh w)) of
                  Inl e \<Rightarrow> (Inl e, (l, logged (Launch (Suc (fresh w)))
                              ((logged PlaywrightStart w)\<lparr>fresh := Suc (Suc (fresh w)), playwright := Some (fresh w)\<rparr>)))
                | Inr u' \<Rightarrow> (Inr (Suc (fresh w)), (l, logged (Launch (Suc (fresh w)))
                              ((logged PlaywrightStart w)\<lparr>fresh := Suc (Suc (fresh w)), playwright := Some (fresh w)\<rparr>)))))
      | Some p \<Rightarrow>
          (case launch_r env (fresh w) of
             Inl e \<Rightarrow> (Inl e, (l, logged (Launch (fresh w)) (w\<lparr>fresh := Suc (fresh w)\<rparr>)))
           | Inr u' \<Rightarrow> (Inr (fresh w), (l, logged (Launch (fresh w)) (w\<lparr>fresh := Suc (fresh w)\<rparr>)))))"
  by (simp add: u_create_browser_def prog_simps logged_def split: option.splits sum.splits)

lemma get_page_locked_expired:
  assumes "browser w = Some b" and "now env - last_used w > IDLE_TIMEOUT"
  shows "get_page_locked env (l, w) =
     (case u_create_browser env (l, (logged (BrowserClose b) w)\<lparr>browser := None\<rparr>) of
        (Inl e, s') \<Rightarrow> (Inl e, s')
      | (Inr b', (l', w')) \<Rightarrow>
          (Inr (), (l', logged (SetLastUsed (now env)) (w'\<lparr>browser := Some b', last_used := now env\<rparr>))))"
  using assms
  by (simp add: get_page_locked_def close_internal_run prog_simps split: prod.splits sum.splits)


lemma get_page_expired_run:
  assumes br: "browser w = Some b" and idle: "now env - last_used w > IDLE_TIMEOUT"
  shows "get_page env (l, w) =
     (case u_create_browser env (l, (logged (BrowserClose b) (logged LockAcquire w))\<lparr>browser := None\<rparr>) of
        (Inl e, (l', w')) \<Rightarrow> (Inl e, (l', logged LockRelease w'))
      | (Inr b', (l', w')) \<Rightarrow>
          (case new_page_r env b' of
             Inl e \<Rightarrow> (Inl e, (l', logged (NewPage b' (USER_AGENTS ! (choice env mod length USER_AGENTS)))
                         (logged LockRelease (logged (SetLastUsed (now env))
                            (w'\<lparr>browser := Some b', last_used := now env\<rparr>)))))
           | Inr p \<Rightarrow>
               (case init_script_r p of
                  Inl e \<Rightarrow> (Inl e, (l', logged AddInitScript
                         (logged (NewPage b' (USER_AGENTS ! (choice env mod length USER_AGENTS)))
                         (logged LockRelease (logged (SetLastUsed (now env))
                            (w'\<lparr>browser := Some b', last_used := now env\<rparr>))))))
                | Inr u \<Rightarrow> (Inr (p\<lparr>session := b'\<rparr>), (l', logged AddInitScript
                         (logged (NewPage b' (USER_AGENTS ! (choice env mod length USER_AGENTS)))
                         (logged LockRelease (logged (SetLastUsed (now env))
                            (w'\<lparr>browser := Some b', last_used := now env\<rparr>)))))))))"
proof -
  have lk: "browser (logged LockAcquire w) = Some b"
    "now env - last_used (logged LockAcquire w) > IDLE_TIMEOUT"
    using br idle by simp_all
  show ?thesis
    unfolding get_page_def
    by (simp add: bind_apply with_lock_apply get_page_locked_expired [OF lk] get_apply call_apply
        ret_apply raise_apply split: prod.splits sum.splits)
qed

text \<open>
  C1.  An acquisition that finds a browser whose last use lies more than \<open>IDLE_TIMEOUT\<close>
  seconds back closes that browser first, inside the lock, and never keeps it.  When the
  acquisition returns a page, the page belongs to a browser launched in this acquisition,
  which is not the old one; the launch comes after the close and before the page is opened,
  and \<open>_last_used\<close> is set to the current time between the launch and the release of the
  lock.  One acquisition runs alone here: tasks that interleave are outside the model.
\<close>

theorem get_page_recreates_after_idle:
  assumes br: "browser w = Some b" and idle: "now env - last_used w > IDLE_TIMEOUT"
    and wf: "pool_wf w"
  shows "browser (snd (snd (get_page env (l, w)))) \<noteq> Some b \<and>
    take (length (trace w) + 2) (trace (snd (snd (get_page env (l, w)))))
      = trace w @ [LockAcquire, BrowserClose b] \<and>
    (\<forall>page. fst (get_page env (l, w)) = Inr page \<longrightarrow>
       session page \<noteq> b \<and>
       browser (snd (snd (get_page env (l, w)))) = Some (session page) \<and>
       last_used (snd (snd (get_page env (l, w)))) = now env \<and>
       trace (snd (snd (get_page env (l, w)))) =
         trace w @ [LockAcquire, BrowserClose b]
           @ (if playwright w = None then [PlaywrightStart] else [])
           @ [Launch (session page), SetLastUsed (now env), LockRelease,
              NewPage (session page) (USER_AGENTS ! (choice env mod length USER_AGENTS)),
              AddInitScript])"
proof -
  have b: "b < fresh w" using wf br by (simp add: pool_wf_def)
  show ?thesis
    using b
    by (simp add: get_page_expired_run [OF br idle] create_browser_run
        split: option.splits sum.splits)
qed

theorem get_page_recreates_after_idle_witness:
  "browser aged_pool = Some 1 \<and> now quiet_env - last_used aged_pool > IDLE_TIMEOUT \<and>
   pool_wf aged_pool \<and>
   fst (get_page quiet_env ((), aged_pool)) = Inr (quiet_page\<lparr>session := 2\<rparr>) \<and>
   trace (snd (snd (get_page quiet_env ((), aged_pool)))) =
     [LockAcquire, BrowserClose 1, Launch 2, SetLastUsed 1000, LockRelease,
      NewPage 2 (USER_AGENTS ! 0), AddInitScript]"
proof -
  have br: "browser aged_pool = Some 1" by (simp add: aged_pool_def)
  have idle: "now quiet_env - last_used aged_pool > IDLE_TIMEOUT"
    by (simp add: aged_pool_def quiet_env_def IDLE_TIMEOUT_def)
  have wf: "pool_wf aged_pool" by (simp add: pool_wf_def aged_pool_def)
  have run: "fst (get_page quiet_env ((), aged_pool)) = Inr (quiet_page\<lparr>session := 2\<rparr>)"
    unfolding get_page_expired_run [OF br idle] create_browser_run
    by (simp add: aged_pool_def quiet_env_def quiet_page_def logged_def)
  show ?thesis
    using get_page_recreates_after_idle [OF br idle wf, of "()"] br idle wf run
    by (simp add: aged_pool_def quiet_env_def quiet_page_def USER_AGENTS_def)
qed


section \<open>The fuzzy matcher\<close>

lemma common_chars_count: "common_chars q t = length (filter (\<lambda>c. c \<in> set t) q)"
  unfolding common_chars_def by (induction q) auto

lemma closest_loop_inv:
  "(closest_loop q (enumerate k ts) m b = b \<and> (\<forall>j < length ts. common_chars q (ts ! j) \<le> m)) \<or>
   (k \<le> closest_loop q (enumerate k ts) m b \<and>
    closest_loop q (enumerate k ts) m b < k + length ts \<and>
    m < common_chars q (ts ! (closest_loop q (enumerate k ts) m b - k)) \<and>
    (\<forall>j < length ts. common_chars q (ts ! j)
        \<le> common_chars q (ts ! (closest_loop q (enumerate k ts) m b - k))) \<and>
    (\<forall>j < closest_loop q (enumerate k ts) m b - k. common_chars q (ts ! j)
        < common_chars q (ts ! (closest_loop q (enumerate k ts) m b - k))))"
proof (induction ts arbitrary: k m b)
  case Nil
  show ?case by simp
next
  case (Cons t ts)
  let ?s = "common_chars q t"
  show ?case
  proof (cases "m < ?s")
    case True
    let ?r = "closest_loop q (enumerate (Suc k) ts) ?s k"
    have eq: "closest_loop q (enumerate k (t # ts)) m b = ?r"
      using True by simp
    from Cons.IH [of "Suc k" ?s k]
    show ?thesis
    proof (elim disjE conjE)
      assume r: "?r = k" and le: "\<forall>j<length ts. common_chars q (ts ! j) \<le> ?s"
      have "\<forall>j<length (t # ts). common_chars q ((t # ts) ! j) \<le> ?s"
        using le by (auto simp: nth_Cons split: nat.splits)
      then show ?thesis using True r eq by simp
    next
      assume a: "Suc k \<le> ?r" "?r < Suc k + length ts"
        "?s < common_chars q (ts ! (?r - Suc k))"
        "\<forall>j<length ts. common_chars q (ts ! j) \<le> common_chars q (ts ! (?r - Suc k))"
        "\<forall>j<?r - Suc k. common_chars q (ts ! j) < common_chars q (ts ! (?r - Suc k))"
      have idx: "(t # ts) ! (?r - k) = ts ! (?r - Suc k)"
        using a(1) by (simp add: nth_Cons split: nat.splits) (metis Suc_diff_Suc Suc_le_lessD old.nat.inject)
      have "\<forall>j<length (t # ts). common_chars q ((t # ts) ! j) \<le> common_chars q (ts ! (?r - Suc k))"
        using a(3,4) by (auto simp: nth_Cons split: nat.splits)
      moreover have "\<forall>j<?r - k. common_chars q ((t # ts) ! j) < common_chars q (ts ! (?r - Suc k))"
      proof (intro allI impI)
        fix j assume "j < ?r - k"
        then show "common_chars q ((t # ts) ! j) < common_chars q (ts ! (?r - Suc k))"
          using a(1,3,5) by (cases j) auto
      qed
      ultimately show ?thesis
        using a(1,2,3) True eq idx by auto
    qed
  next
    case False
    let ?r = "closest_loop q (enumerate (Suc k) ts) m b"
    have eq: "closest_loop q (enumerate k (t # ts)) m b = ?r"
      using False by simp
    from Cons.IH [of "Suc k" m b]
    show ?thesis
    proof (elim disjE conjE)
      assume r: "?r = b" and le: "\<forall>j<length ts. common_chars q (ts ! j) \<le> m"
      have "\<forall>j<length (t # ts). common_chars q ((t # ts) ! j) \<le> m"
        using le False by (auto simp: nth_Cons split: nat.splits)
      then show ?thesis using r eq by simp
    next
      assume a: "Suc k \<le> ?r" "?r < Suc k + length ts"
        "m < common_chars q (ts ! (?r - Suc k))"
        "\<forall>j<length ts. common_chars q (ts ! j) \<le> common_chars q (ts ! (?r - Suc k))"
        "\<forall>j<?r - Suc k. common_chars q (ts ! j) < common_chars q (ts ! (?r - Suc k))"
      have idx: "(t # ts) ! (?r - k) = ts ! (?r - Suc k)"
        using a(1) by (simp add: nth_Cons split: nat.splits) (metis Suc_diff_Suc Suc_le_lessD old.nat.inject)
      have "\<forall>j<length (t # ts). common_chars q ((t # ts) ! j) \<le> common_chars q (ts ! (?r - Suc k))"
        using a(3,4) False by (auto simp: nth_Cons split: nat.splits)
      moreover have "\<forall>j<?r - k. common_chars q ((t # ts) ! j) < common_chars q (ts ! (?r - Suc k))"
      proof (intro allI impI)
        fix j assume "j < ?r - k"
        then show "common_chars q ((t # ts) ! j) < common_chars q (ts ! (?r - Suc k))"
          using a(1,3,5) False by (cases j) auto
      qed
      ultimately show ?thesis
        using a(1,2,3) eq idx by auto
    qed
  qed
qed


text \<open>
  C3.  The score of a candidate is the number of characters of the query that occur in it.
  On an empty candidate list the matcher returns 0.  On a non-empty list it returns a valid
  index whose score is greatest, and every candidate before it scores strictly less (the
  lowest index wins a tie).  On the spec's example it returns 0.
\<close>

theorem find_closest_title_best:
  "common_chars q t = length (filter (\<lambda>c. c \<in> set t) q) \<and>
   find_closest_title q [] = 0 \<and>
   (ts \<noteq> [] \<longrightarrow>
      find_closest_title q ts < length ts \<and>
      (\<forall>j < length ts. common_chars q (ts ! j) \<le> common_chars q (ts ! find_closest_title q ts)) \<and>
      (\<forall>j < find_closest_title q ts.
          common_chars q (ts ! j) < common_chars q (ts ! find_closest_title q ts))) \<and>
   find_closest_title ''abc'' [''xabcx'', ''ab'', ''none''] = 0"
proof (intro conjI impI)
  show "common_chars q t = length (filter (\<lambda>c. c \<in> set t) q)"
    by (rule common_chars_count)
  show "find_closest_title q [] = 0"
    by (simp add: find_closest_title_def)
  show "find_closest_title ''abc'' [''xabcx'', ''ab'', ''none''] = 0"
    by (simp add: find_closest_title_def common_chars_def)
next
  assume ne: "ts \<noteq> []"
  let ?r = "find_closest_title q ts"
  have inv: "(?r = 0 \<and> (\<forall>j < length ts. common_chars q (ts ! j) \<le> 0)) \<or>
      (?r < length ts \<and> (\<forall>j < length ts. common_chars q (ts ! j) \<le> common_chars q (ts ! ?r)) \<and>
       (\<forall>j < ?r. common_chars q (ts ! j) < common_chars q (ts ! ?r)))"
    using closest_loop_inv [of q 0 ts 0 0] unfolding find_closest_title_def by auto
  from inv ne show "?r < length ts" by auto
  from inv show "\<forall>j < length ts. common_chars q (ts ! j) \<le> common_chars q (ts ! ?r)" by auto
  from inv show "\<forall>j < ?r. common_chars q (ts ! j) < common_chars q (ts ! ?r)" by auto
qed

theorem find_closest_title_best_witness:
  "[''ab'', ''cab'', ''abc''] \<noteq> [] \<and>
   find_closest_title ''abc'' [''ab'', ''cab'', ''abc''] = 1 \<and>
   common_chars ''abc'' ([''ab'', ''cab'', ''abc''] ! 0) < common_chars ''abc'' ([''ab'', ''cab'', ''abc''] ! 1)"
  using find_closest_title_best [of "''abc''" "''ab''" "[''ab'', ''cab'', ''abc'']"]
  by (simp add: find_closest_title_def common_chars_def)

section \<open>The alias resolver\<close>

lemma dict_contains_map_of: "dict_contains d k \<longleftrightarrow> map_of d k \<noteq> None"
  unfolding dict_contains_def by (simp add: map_of_eq_None_iff)

lemma py_lower_no_small:
  "py_lower s = c \<Longrightarrow> \<forall>ch \<in> set c. \<not> (97 \<le> ch \<and> ch \<le> 122) \<Longrightarrow> s = c"
proof (induction s arbitrary: c)
  case Nil
  then show ?case by (simp add: py_lower_def)
next
  case (Cons x xs)
  from Cons.prems(1) have c: "c = lower_cp x @ py_lower xs"
    by (simp add: py_lower_def)
  have x: "lower_cp x = [x]"
    using Cons.prems(2) unfolding c lower_cp_def by (auto split: if_splits)
  have "xs = py_lower xs"
    using Cons.IH [of "py_lower xs"] Cons.prems(2) unfolding c by simp
  then show ?case using c x by simp
qed

lemma search_alias_DOI: "map_of SEARCH_TYPE_ALIASES (py_strip (py_lower (ustr ''DOI''))) = Some (ustr ''DOI'')"
  by (simp add: SEARCH_TYPE_ALIASES_def ustr_def py_lower_def lower_cp_def py_strip_def is_space_def)

lemma search_types_fixed:
  assumes "dict_contains SEARCH_TYPES s" and "s \<noteq> ustr ''DOI''"
  shows "\<forall>ch \<in> set s. \<not> (97 \<le> ch \<and> ch \<le> 122)"
  using assms unfolding dict_contains_def SEARCH_TYPES_def ustr_def by auto

lemma sort_types_fixed:
  assumes "dict_contains SORT_TYPES s"
  shows "\<forall>ch \<in> set s. \<not> (97 \<le> ch \<and> ch \<le> 122)"
  using assms unfolding dict_contains_def SORT_TYPES_def ustr_def by auto

lemma resolve_search_type_char:
  "resolve_search_type s =
     Inr (case map_of SEARCH_TYPE_ALIASES (py_strip (py_lower s)) of
            Some c \<Rightarrow> c
          | None \<Rightarrow> if dict_contains SEARCH_TYPES s then s else zh_topic)"
proof (cases "s = []")
  case True
  have "map_of SEARCH_TYPE_ALIASES (py_strip (py_lower [])) = None"
    by (simp add: SEARCH_TYPE_ALIASES_def ustr_def py_lower_def py_strip_def)
  moreover have "\<not> dict_contains SEARCH_TYPES []"
    by (simp add: dict_contains_def SEARCH_TYPES_def ustr_def)
  ultimately show ?thesis using True by (simp add: resolve_search_type_def)
next
  case False
  then show ?thesis
    by (auto simp: resolve_search_type_def Let_def dict_contains_map_of dict_index_def
        split: option.splits)
qed

lemma resolve_sort_type_char:
  "resolve_sort_type s =
     Inr (case map_of SORT_TYPE_ALIASES (py_strip (py_lower s)) of
            Some c \<Rightarrow> c
          | None \<Rightarrow> if dict_contains SORT_TYPES s then s else zh_relevance)"
proof (cases "s = []")
  case True
  have "map_of SORT_TYPE_ALIASES (py_strip (py_lower [])) = None"
    by (simp add: SORT_TYPE_ALIASES_def ustr_def py_lower_def py_strip_def)
  moreover have "\<not> dict_contains SORT_TYPES []"
    by (simp add: dict_contains_def SORT_TYPES_def)
  ultimately show ?thesis using True by (simp add: resolve_sort_type_def)
next
  case False
  then show ?thesis
    by (auto simp: resolve_sort_type_def Let_def dict_contains_map_of dict_index_def
        split: option.splits)
qed

lemma search_types_same_case:
  assumes low: "py_lower s = py_lower s'"
    and miss: "map_of SEARCH_TYPE_ALIASES (py_strip (py_lower s)) = None"
    and mem: "dict_contains SEARCH_TYPES s"
  shows "s' = s"
proof -
  have nd: "s \<noteq> ustr ''DOI''"
    using miss search_alias_DOI by auto
  have fx: "\<forall>ch \<in> set s. \<not> (97 \<le> ch \<and> ch \<le> 122)"
    using search_types_fixed [OF mem nd] .
  have "py_lower s = s"
    using mem nd unfolding dict_contains_def SEARCH_TYPES_def ustr_def py_lower_def lower_cp_def
    by auto
  then have "py_lower s' = s" using low by simp
  then show ?thesis using py_lower_no_small fx by blast
qed

lemma sort_types_same_case:
  assumes low: "py_lower s = py_lower s'"
    and mem: "dict_contains SORT_TYPES s"
  shows "s' = s"
proof -
  have fx: "\<forall>ch \<in> set s. \<not> (97 \<le> ch \<and> ch \<le> 122)"
    using sort_types_fixed [OF mem] .
  have "py_lower s = s"
    using mem unfolding dict_contains_def SORT_TYPES_def py_lower_def lower_cp_def
    by auto
  then have "py_lower s' = s" using low by simp
  then show ?thesis using py_lower_no_small fx by blast
qed


text \<open>
  C4, as amended.  Both resolvers never raise.  They look the lower-cased and trimmed input
  up in the alias table; when that misses they look the input as it was given, neither
  trimmed nor lower-cased, up in the table of canonical names; otherwise they return the
  default.  Two inputs with the same lower-case form resolve to the same name.
\<close>

theorem resolve_alias_then_exact:
  "resolve_search_type s =
     Inr (case map_of SEARCH_TYPE_ALIASES (py_strip (py_lower s)) of
            Some c \<Rightarrow> c
          | None \<Rightarrow> if dict_contains SEARCH_TYPES s then s else zh_topic) \<and>
   resolve_sort_type s =
     Inr (case map_of SORT_TYPE_ALIASES (py_strip (py_lower s)) of
            Some c \<Rightarrow> c
          | None \<Rightarrow> if dict_contains SORT_TYPES s then s else zh_relevance) \<and>
   (py_lower s = py_lower s' \<longrightarrow>
      resolve_search_type s = resolve_search_type s' \<and>
      resolve_sort_type s = resolve_sort_type s')"
proof (intro conjI impI)
  show "resolve_search_type s =
     Inr (case map_of SEARCH_TYPE_ALIASES (py_strip (py_lower s)) of
            Some c \<Rightarrow> c
          | None \<Rightarrow> if dict_contains SEARCH_TYPES s then s else zh_topic)"
    by (rule resolve_search_type_char)
  show "resolve_sort_type s =
     Inr (case map_of SORT_TYPE_ALIASES (py_strip (py_lower s)) of
            Some c \<Rightarrow> c
          | None \<Rightarrow> if dict_contains SORT_TYPES s then s else zh_relevance)"
    by (rule resolve_sort_type_char)
next
  assume low: "py_lower s = py_lower s'"
  show "resolve_search_type s = resolve_search_type s'"
  proof (cases "map_of SEARCH_TYPE_ALIASES (py_strip (py_lower s))")
    case (Some c)
    then show ?thesis using low by (simp add: resolve_search_type_char)
  next
    case None
    have None': "map_of SEARCH_TYPE_ALIASES (py_strip (py_lower s')) = None"
      using None low by simp
    show ?thesis
    proof (cases "dict_contains SEARCH_TYPES s")
      case True
      have "s' = s" using search_types_same_case [OF low None True] .
      then show ?thesis by simp
    next
      case False
      show ?thesis
      proof (cases "dict_contains SEARCH_TYPES s'")
        case True
        have "s = s'" using search_types_same_case [OF low [symmetric] None' True] .
        then show ?thesis by simp
      next
        case F': False
        show ?thesis
          unfolding resolve_search_type_char [of s] resolve_search_type_char [of s']
          by (simp only: None None' False F' option.case if_False)
      qed
    qed
  qed
next
  assume low: "py_lower s = py_lower s'"
  show "resolve_sort_type s = resolve_sort_type s'"
  proof (cases "dict_contains SORT_TYPES s")
    case True
    have "s' = s" using sort_types_same_case [OF low True] .
    then show ?thesis by simp
  next
    case False
    show ?thesis
    proof (cases "dict_contains SORT_TYPES s'")
      case True
      have "s = s'" using sort_types_same_case [OF low [symmetric] True] .
      then show ?thesis by simp
    next
      case F': False
      show ?thesis
        unfolding resolve_sort_type_char [of s] resolve_sort_type_char [of s']
        by (simp only: low False F' if_False)
    qed
  qed
qed


theorem resolve_alias_then_exact_witness:
  "py_lower (ustr ''Title'') = py_lower (ustr ''tITLE'') \<and>
   resolve_search_type (ustr ''Title'') = resolve_search_type (ustr ''tITLE'') \<and>
   resolve_search_type (ustr ''tITLE'') = Inr zh_title"
proof -
  have low: "py_lower (ustr ''Title'') = py_lower (ustr ''tITLE'')"
    by (simp add: ustr_def py_lower_def lower_cp_def)
  have hit: "map_of SEARCH_TYPE_ALIASES (py_strip (py_lower (ustr ''tITLE''))) = Some zh_title"
    by (simp add: SEARCH_TYPE_ALIASES_def ustr_def py_lower_def lower_cp_def py_strip_def
        is_space_def)
  have eq: "resolve_search_type (ustr ''Title'') = resolve_search_type (ustr ''tITLE'')"
    using resolve_alias_then_exact [of "ustr ''Title''" "ustr ''tITLE''"] low by blast
  have "resolve_search_type (ustr ''tITLE'') = Inr zh_title"
    by (simp add: resolve_search_type_char hit)
  then show ?thesis using eq low by simp
qed

text \<open>
  The claim C4 as written fails: a canonical name followed by a blank is not found, although
  its trimmed form is in the table of canonical names.
\<close>

theorem resolve_not_trimming_counterexample:
  "py_strip (py_lower [31687, 21517, 32]) = [31687, 21517] \<and>
   resolve_search_type [31687, 21517] = Inr [31687, 21517] \<and>
   resolve_search_type [31687, 21517, 32] = Inr [20027, 39064] \<and>
   py_strip (py_lower [21457, 34920, 26102, 38388, 32]) = [21457, 34920, 26102, 38388] \<and>
   resolve_sort_type [21457, 34920, 26102, 38388] = Inr [21457, 34920, 26102, 38388] \<and>
   resolve_sort_type [21457, 34920, 26102, 38388, 32] = Inr [30456, 20851, 24230]"
proof (intro conjI)
  show a: "py_strip (py_lower [31687, 21517, 32]) = [31687, 21517]"
    by (simp add: py_lower_def lower_cp_def py_strip_def is_space_def)
  have a': "py_strip (py_lower [31687, 21517]) = [31687, 21517]"
    by (simp add: py_lower_def lower_cp_def py_strip_def is_space_def)
  have m: "map_of SEARCH_TYPE_ALIASES [31687, 21517] = None"
    by (simp add: SEARCH_TYPE_ALIASES_def ustr_def)
  show "resolve_search_type [31687, 21517] = Inr [31687, 21517]"
    by (simp add: resolve_search_type_char a' m dict_contains_def SEARCH_TYPES_def)
  show "resolve_search_type [31687, 21517, 32] = Inr [20027, 39064]"
    by (simp add: resolve_search_type_char a m dict_contains_def SEARCH_TYPES_def ustr_def)
  show b: "py_strip (py_lower [21457, 34920, 26102, 38388, 32]) = [21457, 34920, 26102, 38388]"
    by (simp add: py_lower_def lower_cp_def py_strip_def is_space_def)
  have b': "py_strip (py_lower [21457, 34920, 26102, 38388]) = [21457, 34920, 26102, 38388]"
    by (simp add: py_lower_def lower_cp_def py_strip_def is_space_def)
  have n: "map_of SORT_TYPE_ALIASES [21457, 34920, 26102, 38388] = None"
    by (simp add: SORT_TYPE_ALIASES_def ustr_def)
  show "resolve_sort_type [21457, 34920, 26102, 38388] = Inr [21457, 34920, 26102, 38388]"
    by (simp add: resolve_sort_type_char b' n dict_contains_def SORT_TYPES_def)
  show "resolve_sort_type [21457, 34920, 26102, 38388, 32] = Inr [30456, 20851, 24230]"
    by (simp add: resolve_sort_type_char b n dict_contains_def SORT_TYPES_def)
qed

section \<open>The tools\<close>

lemma get_page_none_run:
  assumes br: "browser w = None"
  shows "get_page env (l, w) =
     (case u_create_browser env (l, logged LockAcquire w) of
        (Inl e, (l', w')) \<Rightarrow> (Inl e, (l', logged LockRelease w'))
      | (Inr b', (l', w')) \<Rightarrow>
          (case new_page_r env b' of
             Inl e \<Rightarrow> (Inl e, (l', logged (NewPage b' (USER_AGENTS ! (choice env mod length USER_AGENTS)))
                         (logged LockRelease (logged (SetLastUsed (now env))
                            (w'\<lparr>browser := Some b', last_used := now env\<rparr>)))))
           | Inr p \<Rightarrow>
               (case init_script_r p of
                  Inl e \<Rightarrow> (Inl e, (l', logged AddInitScript
                         (logged (NewPage b' (USER_AGENTS ! (choice env mod length USER_AGENTS)))
                         (logged LockRelease (logged (SetLastUsed (now env))
                            (w'\<lparr>browser := Some b', last_used := now env\<rparr>))))))
                | Inr u \<Rightarrow> (Inr (p\<lparr>session := b'\<rparr>), (l', logged AddInitScript
                         (logged (NewPage b' (USER_AGENTS ! (choice env mod length USER_AGENTS)))
                         (logged LockRelease (logged (SetLastUsed (now env))
                            (w'\<lparr>browser := Some b', last_used := now env\<rparr>)))))))))"
  using br unfolding get_page_def get_page_locked_def
  by (simp add: bind_apply with_lock_apply get_apply call_apply modify_apply
      ret_apply raise_apply split: prod.splits sum.splits)

lemma quiet_get_page:
  assumes "browser w = None" and "playwright w = None"
  shows "get_page quiet_env (l, w) =
     (Inr (quiet_page\<lparr>session := Suc (fresh w)\<rparr>),
      (l, w\<lparr>playwright := Some (fresh w), browser := Some (Suc (fresh w)), last_used := 1000,
            fresh := Suc (Suc (fresh w)),
            trace := trace w @ [LockAcquire, PlaywrightStart, Launch (Suc (fresh w)),
                     SetLastUsed 1000, LockRelease, NewPage (Suc (fresh w)) (USER_AGENTS ! 0),
                     AddInitScript]\<rparr>))"
  unfolding get_page_none_run [OF assms(1)] create_browser_run
  using assms by (simp add: quiet_env_def quiet_page_def logged_def USER_AGENTS_def)

lemma quiet_ctx: "ctx quiet_env ev (l, w) = (Inr (), (l, logged ev w))"
  by (simp add: ctx_apply quiet_env_def)

text \<open>
  C6, as amended.  A URL that is empty or does not contain \<open>cnki\<close> in any letter case is
  answered with the error payload at once: nothing is called, and the pool and the trace are
  as they were.
\<close>

theorem detail_rejects_without_cnki:
  assumes "url = [] \<or> \<not> contains (ustr ''cnki'') (py_lower url)"
  shows "get_paper_detail env url (l, w) =
    (Inr (PDict [(''isError'', PBool True), (''error'', PStr CNKI_URL_ERROR)]), (l, w))"
  using assms by (auto simp: get_paper_detail_def ret_apply)

theorem detail_rejects_without_cnki_witness:
  "\<not> contains (ustr ''cnki'') (py_lower (ustr ''https://example.com/paper'')) \<and>
   get_paper_detail quiet_env (ustr ''https://example.com/paper'') ((), new_pool) =
    (Inr (PDict [(''isError'', PBool True), (''error'', PStr CNKI_URL_ERROR)]), ((), new_pool))"
proof -
  have h: "\<not> contains (ustr ''cnki'') (py_lower (ustr ''https://example.com/paper''))"
    by (simp add: ustr_def py_lower_def lower_cp_def)
  show ?thesis
    using detail_rejects_without_cnki [of "ustr ''https://example.com/paper''" quiet_env "()" new_pool] h
    by simp
qed


text \<open>
  The claim C6 as written fails: a URL of another host that carries \<open>cnki\<close> in its path
  passes the test, and a page is leased and sent to it.
\<close>

theorem detail_foreign_url_counterexample:
  "\<not> in_portal_domain (ustr ''https://example.com/cnki'') \<and>
   trace (snd (snd (get_paper_detail quiet_env (ustr ''https://example.com/cnki'') ((), new_pool)))) =
     [CtxInfo, CtxProgress 0, LockAcquire, PlaywrightStart, Launch 1, SetLastUsed 1000,
      LockRelease, NewPage 1 (USER_AGENTS ! 0), AddInitScript,
      Goto (ustr ''https://example.com/cnki''), Sleep, ExtractDetail, PageClose,
      CtxProgress 100] \<and>
   browser (snd (snd (get_paper_detail quiet_env (ustr ''https://example.com/cnki'') ((), new_pool)))) = Some 1"
proof -
  have dom: "\<not> in_portal_domain (ustr ''https://example.com/cnki'')"
    by (simp add: in_portal_domain_def url_host_def ustr_def py_lower_def lower_cp_def Let_def)
  have acc: "contains (ustr ''cnki'') (py_lower (ustr ''https://example.com/cnki''))"
    by (simp add: ustr_def py_lower_def lower_cp_def)
  have ne: "ustr ''https://example.com/cnki'' \<noteq> []"
    by (simp add: ustr_def)
  have pg: "get_page quiet_env ((), logged (CtxProgress 0) (logged CtxInfo new_pool)) =
     (Inr (quiet_page\<lparr>session := 1\<rparr>),
      ((), \<lparr>playwright = Some 0, browser = Some 1, last_used = 1000, fresh = 2,
           trace = [CtxInfo, CtxProgress 0, LockAcquire, PlaywrightStart, Launch 1,
                    SetLastUsed 1000, LockRelease, NewPage 1 (USER_AGENTS ! 0),
                    AddInitScript]\<rparr>))"
    by (subst quiet_get_page) (simp_all add: new_pool_def logged_def)
  have run: "get_paper_detail quiet_env (ustr ''https://example.com/cnki'') ((), new_pool) =
      (Inr (PDict []),
       ((), \<lparr>playwright = Some 0, browser = Some 1, last_used = 1000, fresh = 2,
            trace = [CtxInfo, CtxProgress 0, LockAcquire, PlaywrightStart, Launch 1, SetLastUsed 1000,
                     LockRelease, NewPage 1 (USER_AGENTS ! 0), AddInitScript,
                     Goto (ustr ''https://example.com/cnki''), Sleep, ExtractDetail, PageClose,
                     CtxProgress 100]\<rparr>))"
    unfolding get_paper_detail_def using acc ne
    apply (simp add: bind_apply quiet_ctx pg)
    apply (simp add: bind_apply quiet_ctx detail_try_def u_get_paper_detail_def
        try_finally_apply try_except_apply act_apply call_apply ret_apply page_close_def
        random_delay_def quiet_page_def logged_def)
    done
  show ?thesis using dom run by simp
qed


lemma guarded_run:
  "try_finally (try_except m (\<lambda>e. ret (H e))) (page_close page) (l, w) =
     (case m (l, w) of (r, (l', w')) \<Rightarrow>
        ((case close_r page of
            Inl e \<Rightarrow> Inl e
          | Inr u \<Rightarrow> Inr (case r of Inl e \<Rightarrow> H e | Inr v \<Rightarrow> v)),
         (l', logged PageClose w')))"
  by (simp add: try_finally_apply try_except_apply ret_apply page_close_def call_apply
      split: prod.splits sum.splits)

lemma dict_bind:
  assumes "\<And>x s'. dict_or_raise (fst (f x s'))"
  shows "dict_or_raise (fst (bind m f s))"
proof -
  obtain r s' where m: "m s = (r, s')" by (metis prod.exhaust)
  show ?thesis
    using assms m by (cases r) (simp_all add: bind_apply dict_or_raise_def)
qed

lemma dict_ret: "dict_or_raise (fst (ret (PDict d) s))"
  by (simp add: ret_apply dict_or_raise_def)

lemma simple_search_dict: "dict_or_raise (fst (u_simple_search page q st sb n s))"
  unfolding u_simple_search_def by (intro dict_bind dict_ret)

lemma professional_search_dict: "dict_or_raise (fst (u_professional_search page q st j sb n s))"
  unfolding u_professional_search_def Let_def by (intro dict_bind dict_ret)

lemma search_body_dict: "dict_or_raise (fst (search_body page q st j n sb s))"
  unfolding search_body_def
  by (simp add: simple_search_dict professional_search_dict split: option.splits)

lemma search_try_dict: "dict_or_raise (fst (search_try page q st j n sb s))"
proof -
  obtain l w where s: "s = (l, w)" by (cases s)
  obtain r l' w' where m: "search_body page q st j n sb (l, w) = (r, (l', w'))"
    by (metis prod.exhaust)
  have "dict_or_raise r" using search_body_dict [of page q st j n sb "(l, w)"] m by simp
  then show ?thesis
    unfolding search_try_def s guarded_run m
    by (auto simp: dict_or_raise_def error_payload_def split: sum.splits pyval.splits)
qed


lemma detail_try_run:
  "fst (detail_try page url s) =
     (case close_r page of
        Inl e \<Rightarrow> Inl e
      | Inr u \<Rightarrow> Inr (case fst (u_get_paper_detail page url s) of
                       Inl e \<Rightarrow> error_payload e [(''url'', PStr url)] | Inr v \<Rightarrow> v)) \<and>
   trace (snd (snd (detail_try page url s))) =
     trace (snd (snd (u_get_paper_detail page url s))) @ [PageClose]"
proof -
  obtain l w where s: "s = (l, w)" by (cases s)
  obtain r l' w' where m: "u_get_paper_detail page url (l, w) = (r, (l', w'))"
    by (metis prod.exhaust)
  show ?thesis unfolding detail_try_def s guarded_run m by (cases "close_r page") simp_all
qed

lemma search_try_run:
  "fst (search_try page q st j n sb s) =
     (case close_r page of
        Inl e \<Rightarrow> Inl e
      | Inr u \<Rightarrow> Inr (case fst (search_body page q st j n sb s) of
                       Inl e \<Rightarrow> error_payload e [(''papers'', PList [])] | Inr v \<Rightarrow> v)) \<and>
   trace (snd (snd (search_try page q st j n sb s))) =
     trace (snd (snd (search_body page q st j n sb s))) @ [PageClose]"
proof -
  obtain l w where s: "s = (l, w)" by (cases s)
  obtain r l' w' where m: "search_body page q st j n sb (l, w) = (r, (l', w'))"
    by (metis prod.exhaust)
  show ?thesis unfolding search_try_def s guarded_run m by (cases "close_r page") simp_all
qed

lemma match_try_run:
  "fst (match_try page q s) =
     (case close_r page of
        Inl e \<Rightarrow> Inl e
      | Inr u \<Rightarrow> Inr (case fst (match_body page q s) of
                       Inl e \<Rightarrow> error_payload e [] | Inr v \<Rightarrow> v)) \<and>
   trace (snd (snd (match_try page q s))) =
     trace (snd (snd (match_body page q s))) @ [PageClose]"
proof -
  obtain l w where s: "s = (l, w)" by (cases s)
  obtain r l' w' where m: "match_body page q (l, w) = (r, (l', w'))"
    by (metis prod.exhaust)
  show ?thesis unfolding match_try_def s guarded_run m by (cases "close_r page") simp_all
qed

lemma ctx_ok_run:
  assumes "\<forall>h ev. ctx_r env h ev = Inr ()"
  shows "ctx env ev (l, w) = (Inr (), (l, logged ev w))"
  using assms by (simp add: ctx_apply)

lemma search_cnki_run:
  assumes ctxok: "\<forall>h ev. ctx_r env h ev = Inr ()"
    and lease: "get_page env (l, logged (CtxProgress 0) (logged CtxInfo w)) = (Inr page, s)"
  shows "fst (search_cnki env q st j n sb (l, w)) = fst (search_try page q st j n sb s)"
proof -
  obtain r l' w' where t: "search_try page q st j n sb s = (r, (l', w'))"
    by (metis prod.exhaust)
  have d: "dict_or_raise r" using search_try_dict [of page q st j n sb s] t by simp
  show ?thesis
    unfolding search_cnki_def using d
    by (auto simp: bind_apply ctx_ok_run [OF ctxok] lease t ret_apply raise_apply
        dict_or_raise_def split: sum.splits pyval.splits option.splits)
qed

lemma get_paper_detail_run:
  assumes ctxok: "\<forall>h ev. ctx_r env h ev = Inr ()"
    and lease: "get_page env (l, logged (CtxProgress 0) (logged CtxInfo w)) = (Inr page, s)"
    and url: "url \<noteq> []" "contains (ustr ''cnki'') (py_lower url)"
  shows "fst (get_paper_detail env url (l, w)) = fst (detail_try page url s)"
proof -
  obtain r l' w' where t: "detail_try page url s = (r, (l', w'))"
    by (metis prod.exhaust)
  show ?thesis
    unfolding get_paper_detail_def using url
    by (auto simp: bind_apply ctx_ok_run [OF ctxok] lease t ret_apply split: sum.splits)
qed

lemma find_best_match_run:
  assumes ctxok: "\<forall>h ev. ctx_r env h ev = Inr ()"
    and lease: "get_page env (l, logged (CtxProgress 0) (logged CtxInfo w)) = (Inr page, s)"
  shows "fst (find_best_match env q (l, w)) = fst (match_try page q s)"
proof -
  obtain r l' w' where t: "match_try page q s = (r, (l', w'))"
    by (metis prod.exhaust)
  show ?thesis
    unfolding find_best_match_def
    by (auto simp: bind_apply ctx_ok_run [OF ctxok] lease t ret_apply split: sum.splits)
qed

text \<open>
  C5, as amended.  Once the page has been leased, each tool turns every exception of the
  body of its \<open>try\<close> block into the error payload, whose \<open>isError\<close> entry is true, and
  closes the page after the body on every path.  When the reporting calls to the context do
  not raise and closing the page does not raise, the tool returns the payload of the body or
  the error payload; an exception of the close itself is the only one that leaves the
  \<open>try\<close> statement.
\<close>

theorem tools_contain_faults_after_lease:
  assumes ctxok: "\<forall>h ev. ctx_r env h ev = Inr ()"
    and lease: "get_page env (l, logged (CtxProgress 0) (logged CtxInfo w)) = (Inr page, s)"
  shows
   "fst (search_cnki env q st j n sb (l, w)) =
      (case close_r page of
         Inl e \<Rightarrow> Inl e
       | Inr u \<Rightarrow> Inr (case fst (search_body page q st j n sb s) of
                        Inl e \<Rightarrow> error_payload e [(''papers'', PList [])] | Inr v \<Rightarrow> v)) \<and>
    (url \<noteq> [] \<and> contains (ustr ''cnki'') (py_lower url) \<longrightarrow>
       fst (get_paper_detail env url (l, w)) =
         (case close_r page of
            Inl e \<Rightarrow> Inl e
          | Inr u \<Rightarrow> Inr (case fst (u_get_paper_detail page url s) of
                           Inl e \<Rightarrow> error_payload e [(''url'', PStr url)] | Inr v \<Rightarrow> v))) \<and>
    fst (find_best_match env q (l, w)) =
      (case close_r page of
         Inl e \<Rightarrow> Inl e
       | Inr u \<Rightarrow> Inr (case fst (match_body page q s) of
                        Inl e \<Rightarrow> error_payload e [] | Inr v \<Rightarrow> v)) \<and>
    trace (snd (snd (search_try page q st j n sb s))) =
      trace (snd (snd (search_body page q st j n sb s))) @ [PageClose] \<and>
    trace (snd (snd (detail_try page url s))) =
      trace (snd (snd (u_get_paper_detail page url s))) @ [PageClose] \<and>
    trace (snd (snd (match_try page q s))) =
      trace (snd (snd (match_body page q s))) @ [PageClose] \<and>
    error_payload e extra =
      PDict ((''isError'', PBool True) # (''error'', PStr (message e)) # extra)"
  using search_cnki_run [OF ctxok lease, of q st j n sb] search_try_run [of page q st j n sb s]
    get_paper_detail_run [OF ctxok lease, of url] detail_try_run [of page url s]
    find_best_match_run [OF ctxok lease, of q] match_try_run [of page q s]
  by (simp add: error_payload_def)


lemma quiet_lease:
  "get_page quiet_env ((), logged (CtxProgress 0) (logged CtxInfo new_pool)) =
     (Inr (quiet_page\<lparr>session := 1\<rparr>),
      ((), \<lparr>playwright = Some 0, browser = Some 1, last_used = 1000, fresh = 2,
           trace = [CtxInfo, CtxProgress 0, LockAcquire, PlaywrightStart, Launch 1,
                    SetLastUsed 1000, LockRelease, NewPage 1 (USER_AGENTS ! 0),
                    AddInitScript]\<rparr>))"
  by (subst quiet_get_page) (simp_all add: new_pool_def logged_def)

theorem tools_contain_faults_after_lease_witness:
  "fst (get_page quiet_env ((), logged (CtxProgress 0) (logged CtxInfo new_pool)))
     = Inr (quiet_page\<lparr>session := 1\<rparr>) \<and>
   ustr ''https://kns.cnki.net/a'' \<noteq> [] \<and>
   contains (ustr ''cnki'') (py_lower (ustr ''https://kns.cnki.net/a'')) \<and>
   fst (get_paper_detail quiet_env (ustr ''https://kns.cnki.net/a'') ((), new_pool)) = Inr (PDict [])"
proof -
  have ctxok: "\<forall>h ev. ctx_r quiet_env h ev = Inr ()" by (simp add: quiet_env_def)
  have url: "ustr ''https://kns.cnki.net/a'' \<noteq> []"
    "contains (ustr ''cnki'') (py_lower (ustr ''https://kns.cnki.net/a''))"
    by (simp_all add: ustr_def py_lower_def lower_cp_def)
  have body: "fst (u_get_paper_detail (quiet_page\<lparr>session := b\<rparr>) u s) = Inr (PDict [])" for b u s
    by (cases s) (simp add: u_get_paper_detail_def bind_apply act_apply call_apply ret_apply
        random_delay_def quiet_page_def)
  have cl: "close_r quiet_page = Inr ()" by (simp add: quiet_page_def)
  show ?thesis
    using tools_contain_faults_after_lease [OF ctxok quiet_lease,
        of "[]" "[]" None 1 "[]" "ustr ''https://kns.cnki.net/a''" IndexError "[]"] url
    by (simp add: quiet_lease body cl)
qed

lemma no_launch_get_page:
  assumes "browser w = None" and "playwright w = None"
  shows "fst (get_page no_launch_env (l, w)) = Inl (DriverError (ustr ''launch failed''))"
  unfolding get_page_none_run [OF assms(1)] create_browser_run
  using assms by (simp add: no_launch_env_def quiet_env_def)

lemma no_launch_ctx: "ctx no_launch_env ev (l, w) = (Inr (), (l, logged ev w))"
  by (simp add: ctx_apply no_launch_env_def quiet_env_def)

text \<open>
  The claim C5 as written fails: \<open>get_page\<close> is called before the \<open>try\<close> statement of each
  tool, so an exception of the browser launch leaves the tool.
\<close>

theorem tools_launch_fault_counterexample:
  "fst (search_cnki no_launch_env (ustr ''graphene'') [20027, 39064] None 1 [30456, 20851, 24230]
         ((), new_pool)) = Inl (DriverError (ustr ''launch failed'')) \<and>
   fst (get_paper_detail no_launch_env (ustr ''https://kns.cnki.net/a'') ((), new_pool))
     = Inl (DriverError (ustr ''launch failed'')) \<and>
   fst (find_best_match no_launch_env (ustr ''graphene'') ((), new_pool))
     = Inl (DriverError (ustr ''launch failed''))"
proof -
  have url: "ustr ''https://kns.cnki.net/a'' \<noteq> []"
    "contains (ustr ''cnki'') (py_lower (ustr ''https://kns.cnki.net/a''))"
    by (simp_all add: ustr_def py_lower_def lower_cp_def)
  have "fst (get_page no_launch_env ((), logged (CtxProgress 0) (logged CtxInfo new_pool)))
      = Inl (DriverError (ustr ''launch failed''))"
    by (rule no_launch_get_page) (simp_all add: new_pool_def)
  then obtain s' where pg: "get_page no_launch_env ((), logged (CtxProgress 0) (logged CtxInfo new_pool))
      = (Inl (DriverError (ustr ''launch failed'')), s')"
    by (metis prod.collapse)
  have a: "fst (search_cnki no_launch_env q st j n sb ((), new_pool))
      = Inl (DriverError (ustr ''launch failed''))" for q st j n sb
    unfolding search_cnki_def by (simp add: bind_apply no_launch_ctx pg)
  have b: "fst (get_paper_detail no_launch_env (ustr ''https://kns.cnki.net/a'') ((), new_pool))
      = Inl (DriverError (ustr ''launch failed''))"
    unfolding get_paper_detail_def using url by (simp add: bind_apply no_launch_ctx pg)
  have c: "fst (find_best_match no_launch_env q ((), new_pool))
      = Inl (DriverError (ustr ''launch failed''))" for q
    unfolding find_best_match_def by (simp add: bind_apply no_launch_ctx pg)
  show ?thesis using a b c by simp
qed


section \<open>The fuzzy lookup\<close>

lemma for_links_lengths:
  "length ts = length us \<Longrightarrow>
   length (fst (fst (snd (for_links links ((ts, us), w))))) =
   length (snd (fst (snd (for_links links ((ts, us), w)))))"
proof (induction links arbitrary: ts us w)
  case Nil
  then show ?case by (simp add: ret_apply)
next
  case (Cons link rest)
  show ?case
  proof (cases "inner_text link")
    case (Inl e)
    then show ?thesis using Cons.prems by (simp add: bind_apply call_apply)
  next
    case t: (Inr t0)
    show ?thesis
    proof (cases "href link")
      case (Inl e)
      then show ?thesis using Cons.prems t by (simp add: bind_apply call_apply)
    next
      case u: (Inr u)
      show ?thesis
        using Cons.prems t u Cons.IH
        by (simp add: bind_apply call_apply local_modify_apply ret_apply)
    qed
  qed
qed

lemma match_collect_run:
  "fst (match_collect page s) = Inr ()"
proof -
  obtain r s' where m: "bind (act page (WaitForSelector (ustr ''a.fz14''))) (\<lambda>_.
        bind (call (Query (ustr ''#gridTable a.fz14'')) (links_r page)) (\<lambda>links.
        for_links links)) s = (r, s')"
    by (metis prod.exhaust)
  show ?thesis
    unfolding match_collect_def try_except_apply m by (cases r) (simp_all add: ret_apply)
qed

lemma match_collect_lengths:
  "length (fst (fst (snd (match_collect page (([], []), w))))) =
   length (snd (fst (snd (match_collect page (([], []), w)))))"
proof (cases "action_r page (trace w) (WaitForSelector (ustr ''a.fz14''))")
  case (Inl e)
  then show ?thesis
    by (simp add: match_collect_def try_except_apply bind_apply act_apply ret_apply)
next
  case a: (Inr u)
  show ?thesis
  proof (cases "links_r page")
    case (Inl e)
    then show ?thesis using a
      by (simp add: match_collect_def try_except_apply bind_apply act_apply call_apply ret_apply)
  next
    case (Inr links)
    obtain r ts us w' where f: "for_links links (([], []), logged (Query (ustr ''#gridTable a.fz14''))
        (logged (WaitForSelector (ustr ''a.fz14'')) w)) = (r, ((ts, us), w'))"
      by (metis prod.exhaust)
    have "length ts = length us"
      using for_links_lengths [of "[]" "[]" links] f by (metis fst_conv list.size(3) snd_conv)
    then show ?thesis using a Inr f
      by (cases r)
        (simp_all add: match_collect_def try_except_apply bind_apply act_apply call_apply ret_apply)
  qed
qed

lemma match_result_run:
  "match_result q ((ts, us), w) =
     ((if ts = []
       then Inr (PDict [(''query'', PStr q), (''best_match'', PNone), (''message'', PStr NOT_FOUND)])
       else (case py_index ts (find_closest_title q ts) of
               Inl e \<Rightarrow> Inl e
             | Inr t \<Rightarrow>
                 (case py_index us (find_closest_title q ts) of
                    Inl e \<Rightarrow> Inl e
                  | Inr u \<Rightarrow>
                      Inr (PDict [(''query'', PStr q),
                                  (''best_match'', PDict [(''title'', PStr t), (''url'', PStr u)]),
                                  (''total_results'', PInt (int (length ts)))])))),
      ((ts, us), w))"
  by (simp add: match_result_def bind_apply local_get_apply ret_apply of_result_apply
      split: sum.splits)

lemma match_lookup_run:
  "match_lookup page q (k, w) =
     match_result q (snd (match_collect page (([], []), w)))"
proof -
  obtain s' where m: "match_collect page (([], []), w) = (Inr (), s')"
    using match_collect_run [of page "(([], []), w)"] by (metis prod.collapse)
  show ?thesis
    by (simp add: match_lookup_def bind_apply local_modify_apply m)
qed

lemma quiet_act: "act (quiet_page\<lparr>session := b\<rparr>) ev (l, w) = (Inr (), (l, logged ev w))"
  by (simp add: act_apply quiet_page_def)

lemma quiet_press_all:
  "\<exists>w'. press_all (quiet_page\<lparr>session := b\<rparr>) sel cs (l, w) = (Inr (), (l, w'))"
  by (induction cs arbitrary: w) (simp_all add: ret_apply bind_apply quiet_act)

lemma quiet_navigate:
  "\<exists>w'. match_navigate (quiet_page\<lparr>session := b\<rparr>) q (l, w) = (Inr (), (l, w'))"
proof -
  from quiet_press_all [of b "ustr ''#txt_SearchText''" q l
      "logged (Clear (ustr ''#txt_SearchText'')) (logged Sleep (logged (Goto (ustr ''https://www.cnki.net/'')) w))"]
  obtain w1 where p: "press_all (quiet_page\<lparr>session := b\<rparr>) (ustr ''#txt_SearchText'') q
      (l, logged (Clear (ustr ''#txt_SearchText'')) (logged Sleep (logged (Goto (ustr ''https://www.cnki.net/'')) w)))
      = (Inr (), (l, w1))" ..
  show ?thesis
    by (simp add: match_navigate_def type_slowly_def random_delay_def bind_apply quiet_act
        call_apply p)
qed

lemma quiet_collect:
  "snd (match_collect (quiet_page\<lparr>session := b\<rparr>) (([], []), w)) =
     (([], []), logged (Query (ustr ''#gridTable a.fz14'')) (logged (WaitForSelector (ustr ''a.fz14'')) w))"
  by (simp add: match_collect_def try_except_apply bind_apply act_apply call_apply ret_apply
      quiet_page_def)

lemma quiet_match_body:
  "fst (match_body (quiet_page\<lparr>session := b\<rparr>) q (l, w)) =
     Inr (PDict [(''query'', PStr q), (''best_match'', PNone), (''message'', PStr NOT_FOUND)])"
proof -
  from quiet_navigate [of b q "([], []) :: pystr list \<times> pystr list" w]
  obtain w1 where n: "match_navigate (quiet_page\<lparr>session := b\<rparr>) q
      (([], []) :: pystr list \<times> pystr list, w) = (Inr (), (([], []), w1))" ..
  show ?thesis
    by (simp add: match_body_def run_local_apply bind_apply n match_lookup_run quiet_collect
        match_result_run ret_apply)
qed

text \<open>
  C8, as amended.  Let \<open>find_best_match\<close> obtain its page, let its reporting calls to the
  context and the closing of the page not raise, let the navigation to the result list
  succeed, and let the gathering of the links end with no candidate title.  Then the tool
  returns a payload that has the query, a \<open>best_match\<close> that is \<open>None\<close> and a
  \<open>message\<close>, and nothing else: it is no error payload and it has no count of candidates.
\<close>

theorem find_best_match_empty:
  assumes ctxok: "\<forall>h ev. ctx_r env h ev = Inr ()"
    and lease: "get_page env (l, logged (CtxProgress 0) (logged CtxInfo w)) = (Inr page, (l', w1))"
    and closes: "close_r page = Inr ()"
    and nav: "match_navigate page q (([], []) :: pystr list \<times> pystr list, w1) = (Inr (), (k, w2))"
    and empty: "fst (fst (snd (match_collect page (([], []), w2)))) = []"
  shows "fst (find_best_match env q (l, w)) =
      Inr (PDict [(''query'', PStr q), (''best_match'', PNone), (''message'', PStr NOT_FOUND)]) \<and>
    map_of [(''query'', PStr q), (''best_match'', PNone), (''message'', PStr NOT_FOUND)]
      ''isError'' = None \<and>
    map_of [(''query'', PStr q), (''best_match'', PNone), (''message'', PStr NOT_FOUND)]
      ''total_candidates'' = None \<and>
    map_of [(''query'', PStr q), (''best_match'', PNone), (''message'', PStr NOT_FOUND)]
      ''total_results'' = None"
proof -
  obtain ts us w3 where c: "snd (match_collect page (([], []), w2)) = ((ts, us), w3)"
    by (metis prod.exhaust)
  have ts: "ts = []" using empty c by simp
  have body: "fst (match_body page q (l', w1)) =
      Inr (PDict [(''query'', PStr q), (''best_match'', PNone), (''message'', PStr NOT_FOUND)])"
    by (simp add: match_body_def run_local_apply bind_apply nav match_lookup_run c ts
        match_result_run ret_apply)
  have "fst (find_best_match env q (l, w)) =
      Inr (PDict [(''query'', PStr q), (''best_match'', PNone), (''message'', PStr NOT_FOUND)])"
    unfolding find_best_match_run [OF ctxok lease]
    by (simp only: match_try_run closes body sum.case)
  then show ?thesis by simp
qed

theorem find_best_match_empty_witness:
  "fst (get_page quiet_env ((), logged (CtxProgress 0) (logged CtxInfo new_pool)))
     = Inr (quiet_page\<lparr>session := 1\<rparr>) \<and>
   close_r (quiet_page\<lparr>session := 1\<rparr>) = Inr () \<and>
   fst (find_best_match quiet_env (ustr ''graphene'') ((), new_pool)) =
     Inr (PDict [(''query'', PStr (ustr ''graphene'')), (''best_match'', PNone),
                 (''message'', PStr NOT_FOUND)])"
proof -
  have ctxok: "\<forall>h ev. ctx_r quiet_env h ev = Inr ()" by (simp add: quiet_env_def)
  have cl: "close_r (quiet_page\<lparr>session := 1\<rparr>) = Inr ()" by (simp add: quiet_page_def)
  let ?w1 = "\<lparr>playwright = Some 0, browser = Some 1, last_used = 1000, fresh = 2,
           trace = [CtxInfo, CtxProgress 0, LockAcquire, PlaywrightStart, Launch 1,
                    SetLastUsed 1000, LockRelease, NewPage 1 (USER_AGENTS ! 0),
                    AddInitScript]\<rparr>"
  from quiet_navigate [of 1 "ustr ''graphene''" "([], []) :: pystr list \<times> pystr list" ?w1]
  obtain w2 where nav: "match_navigate (quiet_page\<lparr>session := 1\<rparr>) (ustr ''graphene'')
      (([], []) :: pystr list \<times> pystr list, ?w1) = (Inr (), (([], []), w2))" ..
  have empty: "fst (fst (snd (match_collect (quiet_page\<lparr>session := 1\<rparr>) (([], []), w2)))) = []"
    by (simp add: quiet_collect)
  show ?thesis
    using find_best_match_empty [OF ctxok quiet_lease cl nav empty] cl
    by (simp add: quiet_lease)
qed

text \<open>
  The claim C8 as written fails: with no candidate the tool returns a payload that has a
  \<open>message\<close> and no count of candidates.
\<close>

theorem find_best_match_no_count_counterexample:
  "fst (find_best_match quiet_env (ustr ''graphene'') ((), new_pool)) =
     Inr (PDict [(''query'', PStr (ustr ''graphene'')), (''best_match'', PNone),
                 (''message'', PStr NOT_FOUND)]) \<and>
   map_of [(''query'', PStr (ustr ''graphene'')), (''best_match'', PNone),
           (''message'', PStr NOT_FOUND)] ''total_candidates'' = None \<and>
   map_of [(''query'', PStr (ustr ''graphene'')), (''best_match'', PNone),
           (''message'', PStr NOT_FOUND)] ''total_results'' = None"
proof -
  have ctxok: "\<forall>h ev. ctx_r quiet_env h ev = Inr ()" by (simp add: quiet_env_def)
  have cl: "close_r (quiet_page\<lparr>session := 1\<rparr>) = Inr ()" by (simp add: quiet_page_def)
  have "fst (find_best_match quiet_env (ustr ''graphene'') ((), new_pool)) =
     Inr (PDict [(''query'', PStr (ustr ''graphene'')), (''best_match'', PNone),
                 (''message'', PStr NOT_FOUND)])"
    unfolding find_best_match_run [OF ctxok quiet_lease]
    by (simp only: match_try_run cl quiet_match_body sum.case)
  then show ?thesis by simp
qed

lemma find_closest_title_less: "ts \<noteq> [] \<Longrightarrow> find_closest_title q ts < length ts"
  using closest_loop_inv [of q 0 ts 0 0] unfolding find_closest_title_def by auto

text \<open>
  C10.  On a non-empty list \<open>find_closest_title\<close> returns an index below the length of the
  list.  The two lists that \<open>find_best_match\<close> gathers have the same length, so whenever it
  has a candidate both of its index reads are in range: the lookup returns the payload
  built from the two entries and raises no \<open>IndexError\<close>.
\<close>

theorem closest_index_in_bounds:
  "(ts \<noteq> [] \<longrightarrow> find_closest_title q ts < length ts) \<and>
   length (fst (fst (snd (match_collect page (([], []), w))))) =
     length (snd (fst (snd (match_collect page (([], []), w))))) \<and>
   (fst (fst (snd (match_lookup page q (k, w)))) \<noteq> [] \<longrightarrow>
      fst (match_lookup page q (k, w)) =
        Inr (PDict [(''query'', PStr q),
                    (''best_match'',
                       PDict [(''title'', PStr (fst (fst (snd (match_lookup page q (k, w)))) !
                                 find_closest_title q (fst (fst (snd (match_lookup page q (k, w))))))),
                              (''url'', PStr (snd (fst (snd (match_lookup page q (k, w)))) !
                                 find_closest_title q (fst (fst (snd (match_lookup page q (k, w)))))))]),
                    (''total_results'',
                       PInt (int (length (fst (fst (snd (match_lookup page q (k, w))))))))]))"
proof (intro conjI impI)
  assume "ts \<noteq> []"
  then show "find_closest_title q ts < length ts" by (rule find_closest_title_less)
next
  show "length (fst (fst (snd (match_collect page (([], []), w))))) =
     length (snd (fst (snd (match_collect page (([], []), w)))))"
    by (rule match_collect_lengths)
next
  obtain T U w' where c: "snd (match_collect page (([], []), w)) = ((T, U), w')"
    by (metis prod.exhaust)
  have len: "length T = length U"
    using match_collect_lengths [of page w] c by simp
  assume "fst (fst (snd (match_lookup page q (k, w)))) \<noteq> []"
  then have ne: "T \<noteq> []"
    unfolding match_lookup_run c match_result_run by simp
  have i: "find_closest_title q T < length T" using ne by (rule find_closest_title_less)
  show "fst (match_lookup page q (k, w)) =
        Inr (PDict [(''query'', PStr q),
                    (''best_match'',
                       PDict [(''title'', PStr (fst (fst (snd (match_lookup page q (k, w)))) !
                                 find_closest_title q (fst (fst (snd (match_lookup page q (k, w))))))),
                              (''url'', PStr (snd (fst (snd (match_lookup page q (k, w)))) !
                                 find_closest_title q (fst (fst (snd (match_lookup page q (k, w)))))))]),
                    (''total_results'',
                       PInt (int (length (fst (fst (snd (match_lookup page q (k, w))))))))])"
    unfolding match_lookup_run c match_result_run using ne i len
    by (simp add: py_index_def)
qed

theorem closest_index_in_bounds_witness:
  "[ustr ''ab'', ustr ''abc''] \<noteq> [] \<and>
   find_closest_title (ustr ''abc'') [ustr ''ab'', ustr ''abc''] < length [ustr ''ab'', ustr ''abc''] \<and>
   fst (fst (snd (match_lookup two_link_page (ustr ''abc'') (([], []), new_pool)))) \<noteq> [] \<and>
   fst (match_lookup two_link_page (ustr ''abc'') (([], []), new_pool)) =
     Inr (PDict [(''query'', PStr (ustr ''abc'')),
                 (''best_match'', PDict [(''title'', PStr (ustr ''abc'')), (''url'', PStr [])]),
                 (''total_results'', PInt 2)])"
proof -
  have c: "snd (match_collect two_link_page (([], []), new_pool)) =
      (([ustr ''ab'', ustr ''abc''], [ustr ''/a'', []]),
       logged (GetAttribute (ustr ''href'')) (logged InnerText
         (logged (GetAttribute (ustr ''href'')) (logged InnerText
           (logged (Query (ustr ''#gridTable a.fz14''))
             (logged (WaitForSelector (ustr ''a.fz14'')) new_pool))))))"
    by (simp add: match_collect_def try_except_apply bind_apply act_apply call_apply ret_apply
        local_modify_apply two_link_page_def quiet_page_def ustr_def py_strip_def is_space_def)
  have idx: "find_closest_title (ustr ''abc'') [ustr ''ab'', ustr ''abc''] = 1"
    by (simp add: find_closest_title_def common_chars_def ustr_def)
  have st: "fst (fst (snd (match_lookup two_link_page (ustr ''abc'') (([], []), new_pool))))
      = [ustr ''ab'', ustr ''abc'']"
    "snd (fst (snd (match_lookup two_link_page (ustr ''abc'') (([], []), new_pool))))
      = [ustr ''/a'', []]"
    unfolding match_lookup_run c match_result_run by simp_all
  show ?thesis
    using closest_index_in_bounds [of "[ustr ''ab'', ustr ''abc'']" "ustr ''abc''" two_link_page
        new_pool "([], [])"]
    unfolding st idx by simp
qed


section \<open>The extraction of a row\<close>

lemma dict_set_twice: "dict_set k v (dict_set k v' d) = dict_set k v d"
  by (induction d) auto

lemma text_or_run:
  "text_or el d (l, w) =
     (case el of
        None \<Rightarrow> (Inr (PStr d), (l, w))
      | Some e \<Rightarrow>
          (case inner_text e of
             Inl x \<Rightarrow> (Inl x, (l, logged InnerText w))
           | Inr t \<Rightarrow> (Inr (PStr (py_strip t)), (l, logged InnerText w))))"
  by (simp add: text_or_def bind_apply call_apply ret_apply split: option.splits sum.splits)

lemma parse_title_run:
  "\<exists>w'. parse_title row (paper, w) =
     (Inr (), (dict_set ''url'' (snd (row_title_url row))
                (dict_set ''title'' (PStr (row_title row)) paper), w'))"
  unfolding parse_title_def row_title_def row_title_url_def
  by (simp add: try_except_apply bind_apply call_apply ret_apply text_or_run set_key_def
      local_modify_apply dict_set_twice split: option.splits sum.splits)


lemma author_names_Some:
  "names_of els = Some names \<Longrightarrow> \<exists>w'. author_names els (l, w) = (Inr names, (l, w'))"
proof (induction els arbitrary: names w)
  case Nil
  then show ?case by (simp add: ret_apply)
next
  case (Cons a rest)
  from Cons.prems obtain t ns where t: "inner_text a = Inr t" and ns: "names_of rest = Some ns"
    and names: "names = (if py_strip t \<noteq> [] then PStr (py_strip t) # ns else ns)"
    by (auto split: sum.splits option.splits)
  show ?case
  proof (cases "py_strip t \<noteq> []")
    case True
    from Cons.IH [OF ns, of "logged InnerText (logged InnerText w)"]
    obtain w' where "author_names rest (l, logged InnerText (logged InnerText w)) = (Inr ns, (l, w'))" ..
    then show ?thesis using t names True
      by (simp add: bind_apply call_apply ret_apply)
  next
    case False
    from Cons.IH [OF ns, of "logged InnerText w"]
    obtain w' where "author_names rest (l, logged InnerText w) = (Inr ns, (l, w'))" ..
    then show ?thesis using t names False
      by (simp add: bind_apply call_apply ret_apply)
  qed
qed

lemma author_names_None:
  "names_of els = None \<Longrightarrow> \<exists>e w'. author_names els (l, w) = (Inl e, (l, w'))"
proof (induction els arbitrary: w)
  case Nil
  then show ?case by simp
next
  case (Cons a rest)
  show ?case
  proof (cases "inner_text a")
    case (Inl e)
    then show ?thesis by (simp add: bind_apply call_apply)
  next
    case t: (Inr t)
    then have n: "names_of rest = None"
      using Cons.prems by (auto split: option.splits)
    show ?thesis
    proof (cases "py_strip t \<noteq> []")
      case True
      from Cons.IH [OF n, of "logged InnerText (logged InnerText w)"]
      obtain e w' where "author_names rest (l, logged InnerText (logged InnerText w)) = (Inl e, (l, w'))"
        by blast
      then show ?thesis using t True by (simp add: bind_apply call_apply)
    next
      case False
      from Cons.IH [OF n, of "logged InnerText w"]
      obtain e w' where "author_names rest (l, logged InnerText w) = (Inl e, (l, w'))"
        by blast
      then show ?thesis using t False by (simp add: bind_apply call_apply)
    qed
  qed
qed

lemma parse_authors_run:
  "\<exists>w'. parse_authors row (paper, w) =
     (Inr (), (dict_set ''authors'' (PList (row_authors row)) paper, w'))"
proof (cases "author_links row")
  case (Inl e)
  then show ?thesis
    by (simp add: parse_authors_def row_authors_def try_except_apply bind_apply call_apply
        set_key_def local_modify_apply)
next
  case els: (Inr els)
  show ?thesis
  proof (cases "names_of els")
    case None
    from author_names_None [OF None, of paper "logged (Query (ustr ''td.author a'')) w"]
    obtain e w' where "author_names els (paper, logged (Query (ustr ''td.author a'')) w)
        = (Inl e, (paper, w'))" by blast
    then show ?thesis using els None
      by (simp add: parse_authors_def row_authors_def try_except_apply bind_apply call_apply
          set_key_def local_modify_apply)
  next
    case (Some names)
    from author_names_Some [OF Some, of paper "logged (Query (ustr ''td.author a'')) w"]
    obtain w' where "author_names els (paper, logged (Query (ustr ''td.author a'')) w)
        = (Inr names, (paper, w'))" ..
    then show ?thesis using els Some
      by (simp add: parse_authors_def row_authors_def try_except_apply bind_apply call_apply
          set_key_def local_modify_apply)
  qed
qed

lemma parse_text_field_run:
  "\<exists>w'. parse_text_field key sel answer d (paper, w) =
     (Inr (), (dict_set key (PStr (field_val answer d)) paper, w'))"
  unfolding parse_text_field_def field_val_def text_val_def
  by (simp add: try_except_apply bind_apply call_apply ret_apply text_or_run set_key_def
      local_modify_apply split: option.splits sum.splits)

lemma parse_paper_row_run:
  "\<exists>w'. u_parse_paper_row row (l, w) = (Inr (row_record row), (l, w'))"
proof -
  let ?p1 = "[(''title'', PStr (row_title row)), (''url'', snd (row_title_url row))]"
  let ?p2 = "?p1 @ [(''authors'', PList (row_authors row))]"
  let ?p3 = "?p2 @ [(''source'', PStr (field_val (source_link row) []))]"
  let ?p4 = "?p3 @ [(''date'', PStr (field_val (date_cell row) []))]"
  let ?p5 = "?p4 @ [(''cited_count'', PStr (field_val (quote_link row) (ustr ''0'')))]"
  from parse_title_run [of row "[]" w] obtain w1 where
    a: "parse_title row ([], w) = (Inr (), (?p1, w1))"
    by auto
  from parse_authors_run [of row ?p1 w1] obtain w2 where
    b: "parse_authors row (?p1, w1) = (Inr (), (?p2, w2))"
    by auto
  from parse_text_field_run [of "''source''" "ustr ''td.source a''" "source_link row" "[]" ?p2 w2]
  obtain w3 where
    c: "parse_text_field ''source'' (ustr ''td.source a'') (source_link row) [] (?p2, w2) =
      (Inr (), (?p3, w3))"
    by auto
  from parse_text_field_run [of "''date''" "ustr ''td.date''" "date_cell row" "[]" ?p3 w3]
  obtain w4 where
    d: "parse_text_field ''date'' (ustr ''td.date'') (date_cell row) [] (?p3, w3) =
      (Inr (), (?p4, w4))"
    by auto
  from parse_text_field_run [of "''cited_count''" "ustr ''td.quote a''" "quote_link row"
      "ustr ''0''" ?p4 w4]
  obtain w5 where
    e: "parse_text_field ''cited_count'' (ustr ''td.quote a'') (quote_link row) (ustr ''0'')
         (?p4, w4) = (Inr (), (?p5, w5))"
    by auto
  from parse_text_field_run [of "''download_count''" "ustr ''td.download a''" "download_link row"
      "ustr ''0''" ?p5 w5]
  obtain w6 where
    f: "parse_text_field ''download_count'' (ustr ''td.download a'') (download_link row)
         (ustr ''0'') (?p5, w5) = (Inr (), (row_record row, w6))"
    by (auto simp: row_record_def)
  show ?thesis
    unfolding u_parse_paper_row_def
    using a b c d e f by (simp add: bind_apply run_local_apply ret_apply)
qed


section \<open>The pagination collector\<close>

lemma row_record_title: "dict_get (row_record row) ''title'' = Inr (PStr (row_title row))"
  by (simp add: dict_get_def row_record_def)

lemma row_record_page:
  "PDict (dict_set ''page'' (PInt n) (row_record row)) = tagged n row"
  by (simp add: tagged_def row_record_def)

lemma for_rows_run:
  "\<exists>w'. for_rows rows n (acc, w) =
     (Inr (), (acc @ map (tagged n) (filter (\<lambda>row. row_title row \<noteq> []) rows), w'))"
proof (induction rows arbitrary: acc w)
  case Nil
  show ?case by (simp add: ret_apply)
next
  case (Cons row rest)
  from parse_paper_row_run [of row acc w]
  obtain w1 where p: "u_parse_paper_row row (acc, w) = (Inr (row_record row), (acc, w1))" ..
  show ?case
  proof (cases "row_title row \<noteq> []")
    case True
    from Cons.IH [of "acc @ [tagged n row]" w1]
    obtain w' where "for_rows rest n (acc @ [tagged n row], w1) =
       (Inr (), ((acc @ [tagged n row]) @ map (tagged n) (filter (\<lambda>row. row_title row \<noteq> []) rest), w'))" ..
    then show ?thesis using True
      by (simp add: bind_apply p of_result_apply row_record_title local_modify_apply
          row_record_page)
  next
    case False
    from Cons.IH [of acc w1]
    obtain w' where "for_rows rest n (acc, w1) =
       (Inr (), (acc @ map (tagged n) (filter (\<lambda>row. row_title row \<noteq> []) rest), w'))" ..
    then show ?thesis using False
      by (simp add: bind_apply p of_result_apply row_record_title ret_apply)
  qed
qed

lemma page_try_Some:
  assumes "visible_rows (views page n) = Some rows"
  shows "\<exists>w'. page_try page n (acc, w) =
     (Inr (), (acc @ map (tagged n) (filter (\<lambda>row. row_title row \<noteq> []) rows), w'))"
proof (cases "rows_now (views page n)")
  case (Inl e)
  then show ?thesis using assms by (simp add: visible_rows_def)
next
  case r: (Inr rs)
  show ?thesis
  proof (cases "rs = []")
    case False
    then have eq: "rows = rs" using assms r by (simp add: visible_rows_def)
    from for_rows_run [of rs n acc "logged (Query ROWS) w"]
    obtain w' where "for_rows rs n (acc, logged (Query ROWS) w) =
       (Inr (), (acc @ map (tagged n) (filter (\<lambda>row. row_title row \<noteq> []) rs), w'))" ..
    then show ?thesis using r False eq
      by (simp add: page_try_def bind_apply call_apply ret_apply)
  next
    case True
    from assms r True obtain u where wt: "wait_rows (views page n) = Inr u"
      and ra: "rows_after (views page n) = Inr rows"
      by (auto simp: visible_rows_def split: sum.splits)
    from for_rows_run [of rows n acc "logged (Query ROWS) (logged (WaitForSelector ROWS) (logged (Query ROWS) w))"]
    obtain w' where "for_rows rows n (acc, logged (Query ROWS) (logged (WaitForSelector ROWS) (logged (Query ROWS) w))) =
       (Inr (), (acc @ map (tagged n) (filter (\<lambda>row. row_title row \<noteq> []) rows), w'))" ..
    then show ?thesis using r True wt ra
      by (simp add: page_try_def bind_apply call_apply ret_apply)
  qed
qed

lemma page_try_None:
  assumes "visible_rows (views page n) = None"
  shows "\<exists>e w'. page_try page n (acc, w) = (Inl e, (acc, w'))"
  using assms
  by (auto simp: visible_rows_def page_try_def bind_apply call_apply ret_apply
      split: sum.splits if_splits)

lemma page_step_run:
  "\<exists>w'. try_except (page_try page n) (\<lambda>e. ret ()) (acc, w) =
     (Inr (), (acc @ page_records (views page n) n, w'))"
proof (cases "visible_rows (views page n)")
  case None
  from page_try_None [OF None, of acc w]
  obtain e w' where "page_try page n (acc, w) = (Inl e, (acc, w'))" by blast
  then show ?thesis using None
    by (simp add: try_except_apply page_records_def ret_apply)
next
  case (Some rows)
  from page_try_Some [OF Some, of acc w]
  obtain w' where "page_try page n (acc, w) =
     (Inr (), (acc @ map (tagged n) (filter (\<lambda>row. row_title row \<noteq> []) rows), w'))" ..
  then show ?thesis using Some
    by (simp add: try_except_apply page_records_def)
qed

lemma advance_proj:
  "fst (advance page n (l, w)) = Inr (can_advance (views page n)) \<and>
   fst (snd (advance page n (l, w))) = l"
  unfolding advance_def can_advance_def
  by (auto simp: try_except_apply bind_apply call_apply ret_apply random_delay_def
      split: sum.splits option.splits)

lemma advance_run:
  "\<exists>w'. advance page n (l, w) = (Inr (can_advance (views page n)), (l, w'))"
  using advance_proj [of page n l w] by (metis prod.collapse)

lemma collect_pages_run:
  "\<exists>w'. collect_pages page pages ns (acc, w) =
     (Inr (), (acc @ concat (map (\<lambda>n. page_records (views page n) n) (visited page pages ns)), w'))"
proof (induction ns arbitrary: acc w)
  case Nil
  show ?case by (simp add: ret_apply)
next
  case (Cons n rest)
  from page_step_run [of page n acc w]
  obtain w1 where s: "try_except (page_try page n) (\<lambda>e. ret ()) (acc, w) =
     (Inr (), (acc @ page_records (views page n) n, w1))" ..
  from advance_run [of page n "acc @ page_records (views page n) n" w1]
  obtain w2 where a: "advance page n (acc @ page_records (views page n) n, w1) =
     (Inr (can_advance (views page n)), (acc @ page_records (views page n) n, w2))" ..
  from Cons.IH [of "acc @ page_records (views page n) n" w1]
  obtain w3 where i1: "collect_pages page pages rest (acc @ page_records (views page n) n, w1) =
     (Inr (), ((acc @ page_records (views page n) n)
        @ concat (map (\<lambda>n. page_records (views page n) n) (visited page pages rest)), w3))" ..
  from Cons.IH [of "acc @ page_records (views page n) n" w2]
  obtain w4 where i2: "collect_pages page pages rest (acc @ page_records (views page n) n, w2) =
     (Inr (), ((acc @ page_records (views page n) n)
        @ concat (map (\<lambda>n. page_records (views page n) n) (visited page pages rest)), w4))" ..
  show ?case
    by (simp add: bind_apply s a i1 i2 ret_apply)
qed

lemma collect_results_run:
  "fst (u_collect_results page pages (l, w)) =
     Inr (concat (map (\<lambda>n. page_records (views page n) n) (visited page pages [1..pages])))"
proof -
  from collect_pages_run [of page pages "[1..pages]" "[]" w]
  obtain w' where "collect_pages page pages [1..pages] ([], w) =
     (Inr (), ([] @ concat (map (\<lambda>n. page_records (views page n) n)
        (visited page pages [1..pages])), w'))" ..
  then show ?thesis
    by (simp add: u_collect_results_def bind_apply run_local_apply ret_apply)
qed




lemma titled_row_title: "row_title titled_row = ustr ''Graphene''"
  by (simp add: row_title_def row_title_url_def titled_row_def ustr_def py_strip_def is_space_def)


text \<open>
  C7, as amended.  Extracting a row never raises and gives a record with all seven fields,
  a field that is absent or cannot be read having its default.  Of the rows visible on a
  page exactly those whose title is not empty are appended to the result, in their order,
  each tagged with the number of the page; a row with an empty title is skipped.  The
  collector returns the records of the pages it visits, in the order of the pages.
\<close>

theorem titled_rows_are_collected:
  "fst (u_parse_paper_row row (l, w)) = Inr (row_record row) \<and>
   map fst (row_record row) =
     [''title'', ''url'', ''authors'', ''source'', ''date'', ''cited_count'', ''download_count''] \<and>
   field_val (Inr None) d = d \<and> field_val (Inl e) d = d \<and>
   (visible_rows (views page n) = Some rows \<longrightarrow>
      fst (try_except (page_try page n) (\<lambda>e. ret ()) (acc, w)) = Inr () \<and>
      fst (snd (try_except (page_try page n) (\<lambda>e. ret ()) (acc, w))) =
        acc @ map (tagged n) (filter (\<lambda>r. row_title r \<noteq> []) rows)) \<and>
   tagged n row = PDict (row_record row @ [(''page'', PInt n)]) \<and>
   fst (u_collect_results page pages (l, w)) =
     Inr (concat (map (\<lambda>n. page_records (views page n) n) (visited page pages [1..pages])))"
proof -
  from parse_paper_row_run [of row l w]
  obtain w1 where "u_parse_paper_row row (l, w) = (Inr (row_record row), (l, w1))" ..
  then have a: "fst (u_parse_paper_row row (l, w)) = Inr (row_record row)" by simp
  have b: "map fst (row_record row) =
     [''title'', ''url'', ''authors'', ''source'', ''date'', ''cited_count'', ''download_count'']"
    by (simp add: row_record_def)
  have c: "field_val (Inr None) d = d \<and> field_val (Inl e) d = d"
    by (simp add: field_val_def text_val_def)
  from page_step_run [of page n acc w]
  obtain w2 where s: "try_except (page_try page n) (\<lambda>e. ret ()) (acc, w) =
     (Inr (), (acc @ page_records (views page n) n, w2))" ..
  have d: "visible_rows (views page n) = Some rows \<longrightarrow>
      fst (try_except (page_try page n) (\<lambda>e. ret ()) (acc, w)) = Inr () \<and>
      fst (snd (try_except (page_try page n) (\<lambda>e. ret ()) (acc, w))) =
        acc @ map (tagged n) (filter (\<lambda>r. row_title r \<noteq> []) rows)"
    unfolding s by (simp add: page_records_def)
  have e: "tagged n row = PDict (row_record row @ [(''page'', PInt n)])"
    by (simp add: tagged_def)
  show ?thesis using a b c d e collect_results_run [of page pages l w] by blast
qed

theorem titled_rows_are_collected_witness:
  "visible_rows (views (one_row_page titled_row) 1) = Some [titled_row] \<and>
   row_title titled_row = ustr ''Graphene'' \<and>
   fst (snd (try_except (page_try (one_row_page titled_row) 1) (\<lambda>e. ret ()) ([], new_pool))) =
     [tagged 1 titled_row]"
proof -
  have v: "visible_rows (views (one_row_page titled_row) 1) = Some [titled_row]"
    by (simp add: visible_rows_def one_row_page_def quiet_page_def quiet_view_def)
  show ?thesis
    using titled_rows_are_collected [where row = titled_row and l = "()" and w = new_pool
        and page = "one_row_page titled_row" and n = 1 and rows = "[titled_row]"
        and acc = "[]"] v titled_row_title
    by (simp add: ustr_def)
qed

text \<open>
  The claim C7 as written fails: a visible row without a title is extracted into a record
  with its defaults, and the collector leaves this record out.
\<close>

theorem untitled_row_dropped_counterexample:
  "visible_rows (views (one_row_page untitled_row) 1) = Some [untitled_row] \<and>
   fst (u_parse_paper_row untitled_row ((), new_pool)) =
     Inr [(''title'', PStr []), (''url'', PStr []), (''authors'', PList []),
          (''source'', PStr (ustr ''Nature'')), (''date'', PStr []),
          (''cited_count'', PStr (ustr ''0'')), (''download_count'', PStr (ustr ''0''))] \<and>
   fst (u_collect_results (one_row_page untitled_row) 1 ((), new_pool)) = Inr []"
proof -
  have v: "visible_rows (views (one_row_page untitled_row) n) = Some [untitled_row]" for n
    by (simp add: visible_rows_def one_row_page_def quiet_page_def quiet_view_def)
  have t: "row_title untitled_row = []"
    by (simp add: row_title_def row_title_url_def untitled_row_def)
  have rec: "row_record untitled_row =
     [(''title'', PStr []), (''url'', PStr []), (''authors'', PList []),
      (''source'', PStr (ustr ''Nature'')), (''date'', PStr []),
      (''cited_count'', PStr (ustr ''0'')), (''download_count'', PStr (ustr ''0''))]"
    by (simp add: row_record_def row_title_def row_title_url_def row_authors_def field_val_def
        text_val_def untitled_row_def ustr_def py_strip_def is_space_def)
  from parse_paper_row_run [of untitled_row "()" new_pool]
  obtain w1 where "u_parse_paper_row untitled_row ((), new_pool) =
      (Inr (row_record untitled_row), ((), w1))" ..
  then have p: "fst (u_parse_paper_row untitled_row ((), new_pool)) = Inr (row_record untitled_row)"
    by simp
  have r: "page_records (views (one_row_page untitled_row) n) n = []" for n
    by (simp add: page_records_def v t)
  have c: "fst (u_collect_results (one_row_page untitled_row) 1 ((), new_pool)) = Inr []"
    by (simp add: collect_results_run r)
  show ?thesis using v p c unfolding rec by simp
qed


end
